theory Spec2Isabelle
  imports Complex_Main
begin

section \<open>Package i18n: the translation table (src/pkg/i18n/i18n.go)\<close>

text \<open>
  The package keeps two package-level variables, \<open>currentLocale\<close> and \<open>translations\<close>
  (a Go map from locale to a map from message id to translated string). They are the
  fields \<open>currentLocale\<close> and \<open>translations_tbl\<close> of the state record below; every
  function of the package takes the state and returns the new one. The third field lists
  the \<open>Message\<close> objects that \<open>NewMessage\<close> has allocated so far (Go:
  \<open>&Message{id: id}\<close>); the package never assigns to the \<open>id\<close> field of a Message
  after its construction.

  The function \<open>msg.Id\<close> of the imported package \<open>msg\<close> is not part of the sources at
  hand: it is the parameter \<open>msg_Id\<close> of every function that calls it, and nothing is
  assumed about it.
\<close>

record Message =
  Message_id :: string

record i18n_state =
  currentLocale :: string
  translations_tbl :: "string \<rightharpoonup> (string \<rightharpoonup> string)"
  allocated :: "Message list"

definition defaultLocale :: string where
  "defaultLocale = ''''"

text \<open>The package's variables as the Go initialisers leave them.\<close>

definition init_state :: i18n_state where
  "init_state = \<lparr>currentLocale = defaultLocale, translations_tbl = Map.empty, allocated = []\<rparr>"

text \<open>
  The Go expression \<open>translations[locale][id]\<close> in its two-valued form: reading a
  missing locale gives the nil map, and reading any key of the nil map is a miss.
\<close>

definition entry :: "(string \<rightharpoonup> (string \<rightharpoonup> string)) \<Rightarrow> string \<Rightarrow> string \<Rightarrow> string option" where
  "entry tr locale i = (case tr locale of None \<Rightarrow> None | Some m \<Rightarrow> m i)"

definition SetLocale :: "string \<Rightarrow> i18n_state \<Rightarrow> i18n_state" where
  "SetLocale locale s = s\<lparr>currentLocale := locale\<rparr>"

text \<open>
  \<open>AddTranslation\<close>: the inner map is the one stored under the locale, or a fresh empty
  one when the locale has none yet; the translation is written at the message's id and
  the id is returned.
\<close>

definition AddTranslation ::
  "(string \<Rightarrow> string \<Rightarrow> string) \<Rightarrow> string \<Rightarrow> string \<Rightarrow> string \<Rightarrow> string \<Rightarrow> i18n_state
     \<Rightarrow> string \<times> i18n_state" where
  "AddTranslation msg_Id locale context content translation s =
     (let inner = (case translations_tbl s locale of None \<Rightarrow> Map.empty | Some m \<Rightarrow> m);
          i = msg_Id context content
      in (i, s\<lparr>translations_tbl := (translations_tbl s)(locale \<mapsto> inner(i \<mapsto> translation))\<rparr>))"

definition NewMessage ::
  "(string \<Rightarrow> string \<Rightarrow> string) \<Rightarrow> string \<Rightarrow> string \<Rightarrow> i18n_state \<Rightarrow> Message \<times> i18n_state" where
  "NewMessage msg_Id content context s =
     (let (i, s') = AddTranslation msg_Id defaultLocale context content content s;
          m = \<lparr>Message_id = i\<rparr>
      in (m, s'\<lparr>allocated := allocated s' @ [m]\<rparr>))"

text \<open>
  \<open>Message.String\<close>: the translation under the current locale when there is one,
  otherwise whatever the default locale's map holds at the id (the empty string, Go's
  zero value, when that is a miss too).
\<close>

definition Message_String :: "i18n_state \<Rightarrow> Message \<Rightarrow> string" where
  "Message_String s m =
     (case entry (translations_tbl s) (currentLocale s) (Message_id m) of
        Some t \<Rightarrow> t
      | None \<Rightarrow> (case entry (translations_tbl s) defaultLocale (Message_id m) of
                   Some t \<Rightarrow> t
                 | None \<Rightarrow> []))"

text \<open>
  A caller of the package, as a sequence of calls. \<open>exec_op\<close> performs one call and
  keeps the state it leaves; \<open>run\<close> performs a sequence from left to right.
\<close>

datatype op =
    OpSetLocale string
  | OpAddTranslation string string string string
  | OpNewMessage string string
  | OpString Message

fun exec_op :: "(string \<Rightarrow> string \<Rightarrow> string) \<Rightarrow> i18n_state \<Rightarrow> op \<Rightarrow> i18n_state" where
  "exec_op msg_Id s (OpSetLocale locale) = SetLocale locale s"
| "exec_op msg_Id s (OpAddTranslation locale context content translation) =
     snd (AddTranslation msg_Id locale context content translation s)"
| "exec_op msg_Id s (OpNewMessage content context) = snd (NewMessage msg_Id content context s)"
| "exec_op msg_Id s (OpString m) = s"

definition run :: "(string \<Rightarrow> string \<Rightarrow> string) \<Rightarrow> i18n_state \<Rightarrow> op list \<Rightarrow> i18n_state" where
  "run msg_Id s ops = foldl (exec_op msg_Id) s ops"

text \<open>The (locale, id) key that a call writes, if it writes one.\<close>

fun written_key :: "(string \<Rightarrow> string \<Rightarrow> string) \<Rightarrow> op \<Rightarrow> (string \<times> string) option" where
  "written_key msg_Id (OpSetLocale locale) = None"
| "written_key msg_Id (OpAddTranslation locale context content translation) =
     Some (locale, msg_Id context content)"
| "written_key msg_Id (OpNewMessage content context) = Some (defaultLocale, msg_Id context content)"
| "written_key msg_Id (OpString m) = None"

text \<open>What a call stores at the key it writes.\<close>

fun written_value :: "op \<Rightarrow> string" where
  "written_value (OpAddTranslation locale context content translation) = translation"
| "written_value (OpNewMessage content context) = content"
| "written_value x = []"

text \<open>
  A stand-in for \<open>msg.Id\<close>, used only to write closed examples (context and content
  joined by the unit separator); every general statement below is about an arbitrary
  \<open>msg_Id\<close>.
\<close>

definition sample_Id :: "string \<Rightarrow> string \<Rightarrow> string" where
  "sample_Id context content = context @ CHR 0x1F # content"

section \<open>Package language: plural rules and the registry\<close>

text \<open>
  The source of package \<open>language\<close> (the table of built-in languages, \<open>lookup\<close>,
  \<open>Register\<close> and \<open>PluralCategory\<close>) is the Go file that follows the workflow
  description in src/.github/workflows/build.yml. \<open>Parse\<close> and \<open>MustParse\<close>, which scan a
  composite string for candidates and hand each to \<open>lookup\<close>, are not needed below.
\<close>

subsection \<open>The types of package plural that language.go uses\<close>

text \<open>
  Modelled from the spec: the type \<open>plural.Category\<close> and its constants, which
  language.go names (\<open>plural.Zero\<close>, ..., \<open>plural.Other\<close>, and \<open>plural.Invalid\<close> for the
  result that goes with an error); package plural is not part of the sources at hand.
  The spec gives the closed set {zero, one, two, few, many, other}.
\<close>

datatype Category =
    plural_Invalid
  | plural_Zero
  | plural_One
  | plural_Two
  | plural_Few
  | plural_Many
  | plural_Other

text \<open>
  Modelled from the spec: the type \<open>plural.Operands\<close>, of which language.go reads the
  fields \<open>I\<close>, \<open>V\<close>, \<open>W\<close>, \<open>F\<close> and \<open>T\<close>. The spec's data model gives \<open>n\<close> as a
  non-negative number and the other five as non-negative integers.
\<close>

record Operands =
  ops_N :: rat
  ops_I :: nat
  ops_V :: nat
  ops_W :: nat
  ops_F :: nat
  ops_T :: nat

subsection \<open>Languages\<close>

record Language =
  ID :: string
  Name :: string
  PluralCategories :: "Category set"
  PluralFunc :: "Operands \<Rightarrow> Category"

text \<open>\<open>newSet\<close> builds the set of the categories it is given.\<close>

definition newSet :: "Category list \<Rightarrow> Category set" where
  "newSet pluralCategories = set pluralCategories"

text \<open>
  The rule functions of the built-in table, in the table's order. A Go \<open>switch\<close> with a
  \<open>default\<close> branch that falls out of the switch continues with the statement after it.
\<close>

definition ar_PluralFunc :: "Operands \<Rightarrow> Category" where
  "ar_PluralFunc ops =
     (if ops_W ops = 0 then
        (if ops_I ops = 0 then plural_Zero
         else if ops_I ops = 1 then plural_One
         else if ops_I ops = 2 then plural_Two
         else (let mod100 = ops_I ops mod 100 in
               if mod100 \<ge> 3 \<and> mod100 \<le> 10 then plural_Few
               else if mod100 \<ge> 11 then plural_Many
               else plural_Other))
      else plural_Other)"

definition ca_PluralFunc :: "Operands \<Rightarrow> Category" where
  "ca_PluralFunc ops = (if ops_I ops = 1 \<and> ops_V ops = 0 then plural_One else plural_Other)"

definition zh_PluralFunc :: "Operands \<Rightarrow> Category" where
  "zh_PluralFunc ops = plural_Other"

definition cs_PluralFunc :: "Operands \<Rightarrow> Category" where
  "cs_PluralFunc ops =
     (if ops_I ops = 1 \<and> ops_V ops = 0 then plural_One
      else if ops_I ops \<ge> 2 \<and> ops_I ops \<le> 4 \<and> ops_V ops = 0 then plural_Few
      else if ops_V ops > 0 then plural_Many
      else plural_Other)"

definition da_PluralFunc :: "Operands \<Rightarrow> Category" where
  "da_PluralFunc ops =
     (if ops_I ops = 1 \<or> (ops_I ops = 0 \<and> ops_T ops \<noteq> 0) then plural_One else plural_Other)"

definition nl_PluralFunc :: "Operands \<Rightarrow> Category" where
  "nl_PluralFunc ops = (if ops_I ops = 1 \<and> ops_V ops = 0 then plural_One else plural_Other)"

definition en_PluralFunc :: "Operands \<Rightarrow> Category" where
  "en_PluralFunc ops = (if ops_I ops = 1 \<and> ops_V ops = 0 then plural_One else plural_Other)"

definition fr_PluralFunc :: "Operands \<Rightarrow> Category" where
  "fr_PluralFunc ops = (if ops_I ops = 0 \<or> ops_I ops = 1 then plural_One else plural_Other)"

definition de_PluralFunc :: "Operands \<Rightarrow> Category" where
  "de_PluralFunc ops = (if ops_I ops = 1 \<and> ops_V ops = 0 then plural_One else plural_Other)"

definition it_PluralFunc :: "Operands \<Rightarrow> Category" where
  "it_PluralFunc ops = (if ops_I ops = 1 \<and> ops_V ops = 0 then plural_One else plural_Other)"

definition ja_PluralFunc :: "Operands \<Rightarrow> Category" where
  "ja_PluralFunc ops = plural_Other"

definition lt_PluralFunc :: "Operands \<Rightarrow> Category" where
  "lt_PluralFunc ops =
     (if ops_F ops \<noteq> 0 then plural_Many
      else (let mod100 = ops_I ops mod 100 in
            if mod100 < 11 \<or> mod100 > 19 then
              (if ops_I ops mod 10 = 0 then plural_Other
               else if ops_I ops mod 10 = 1 then plural_One
               else plural_Few)
            else plural_Other))"

definition pt_PluralFunc :: "Operands \<Rightarrow> Category" where
  "pt_PluralFunc ops = (if ops_I ops = 1 \<and> ops_V ops = 0 then plural_One else plural_Other)"

definition pt_BR_PluralFunc :: "Operands \<Rightarrow> Category" where
  "pt_BR_PluralFunc ops =
     (if (ops_I ops = 1 \<and> ops_V ops = 0) \<or> (ops_I ops = 0 \<and> ops_T ops = 1) then plural_One
      else plural_Other)"

definition es_PluralFunc :: "Operands \<Rightarrow> Category" where
  "es_PluralFunc ops = (if ops_I ops = 1 \<and> ops_W ops = 0 then plural_One else plural_Other)"

text \<open>
  The built-in table: the map literal of the package variable \<open>languages\<close>, as the list
  of its key and value pairs. No entry of the literal sets \<open>Name\<close>, which is therefore
  the empty string.
\<close>

definition builtin :: "string \<Rightarrow> Category list \<Rightarrow> (Operands \<Rightarrow> Category) \<Rightarrow> Language" where
  "builtin i cs f = \<lparr>ID = i, Name = [], PluralCategories = newSet cs, PluralFunc = f\<rparr>"

definition languages_literal :: "(string \<times> Language) list" where
  "languages_literal =
     [(''ar'', builtin ''ar''
         [plural_Zero, plural_One, plural_Two, plural_Few, plural_Many, plural_Other] ar_PluralFunc),
      (''ca'', builtin ''ca'' [plural_One, plural_Other] ca_PluralFunc),
      (''zh'', builtin ''zh'' [plural_Other] zh_PluralFunc),
      (''cs'', builtin ''cs'' [plural_One, plural_Few, plural_Many, plural_Other] cs_PluralFunc),
      (''da'', builtin ''da'' [plural_One, plural_Other] da_PluralFunc),
      (''nl'', builtin ''nl'' [plural_One, plural_Other] nl_PluralFunc),
      (''en'', builtin ''en'' [plural_One, plural_Other] en_PluralFunc),
      (''fr'', builtin ''fr'' [plural_One, plural_Other] fr_PluralFunc),
      (''de'', builtin ''de'' [plural_One, plural_Other] de_PluralFunc),
      (''it'', builtin ''it'' [plural_One, plural_Other] it_PluralFunc),
      (''ja'', builtin ''ja'' [plural_Other] ja_PluralFunc),
      (''lt'', builtin ''lt'' [plural_One, plural_Few, plural_Many, plural_Other] lt_PluralFunc),
      (''pt'', builtin ''pt'' [plural_One, plural_Other] pt_PluralFunc),
      (''pt-BR'', builtin ''pt-BR'' [plural_One, plural_Other] pt_BR_PluralFunc),
      (''es'', builtin ''es'' [plural_One, plural_Other] es_PluralFunc)]"

definition languages :: "string \<rightharpoonup> Language" where
  "languages = map_of languages_literal"

subsection \<open>The Go library functions that lookup calls\<close>

text \<open>
  Go strings are byte sequences, here lists of \<open>char\<close>. \<open>strings.TrimSpace\<close> removes
  from both ends every rune for which \<open>unicode.IsSpace\<close> holds: tab, line feed, vertical
  tab, form feed, carriage return, space, U+0085 and U+00A0, and the White_Space runes
  beyond Latin-1, U+1680, U+2000 to U+200A, U+2028, U+2029, U+202F, U+205F and U+3000.
  In UTF-8 these are the byte sequences that \<open>leading_space\<close> recognises at the start of
  a byte list, and \<open>trailing_space\<close> at the start of the reversed one; both return the
  number of bytes of the rune, or 0 when the bytes there are no such rune.
\<close>

definition asciiSpace :: "nat \<Rightarrow> bool" where
  "asciiSpace b = (b = 9 \<or> b = 10 \<or> b = 11 \<or> b = 12 \<or> b = 13 \<or> b = 32)"

definition space3 :: "nat \<Rightarrow> nat \<Rightarrow> nat \<Rightarrow> bool" where
  "space3 b0 b1 b2 =
     ((b0 = 0xE1 \<and> b1 = 0x9A \<and> b2 = 0x80)
      \<or> (b0 = 0xE2 \<and> b1 = 0x80 \<and> ((0x80 \<le> b2 \<and> b2 \<le> 0x8A) \<or> b2 = 0xA8 \<or> b2 = 0xA9 \<or> b2 = 0xAF))
      \<or> (b0 = 0xE2 \<and> b1 = 0x81 \<and> b2 = 0x9F)
      \<or> (b0 = 0xE3 \<and> b1 = 0x80 \<and> b2 = 0x80))"

fun leading_space :: "nat list \<Rightarrow> nat" where
  "leading_space [] = 0"
| "leading_space [b0] = (if asciiSpace b0 then 1 else 0)"
| "leading_space [b0, b1] =
     (if asciiSpace b0 then 1
      else if b0 = 0xC2 \<and> (b1 = 0x85 \<or> b1 = 0xA0) then 2 else 0)"
| "leading_space (b0 # b1 # b2 # bs) =
     (if asciiSpace b0 then 1
      else if b0 = 0xC2 \<and> (b1 = 0x85 \<or> b1 = 0xA0) then 2
      else if space3 b0 b1 b2 then 3 else 0)"

fun trailing_space :: "nat list \<Rightarrow> nat" where
  "trailing_space [] = 0"
| "trailing_space [b0] = (if asciiSpace b0 then 1 else 0)"
| "trailing_space [b0, b1] =
     (if asciiSpace b0 then 1
      else if b1 = 0xC2 \<and> (b0 = 0x85 \<or> b0 = 0xA0) then 2 else 0)"
| "trailing_space (b0 # b1 # b2 # bs) =
     (if asciiSpace b0 then 1
      else if b1 = 0xC2 \<and> (b0 = 0x85 \<or> b0 = 0xA0) then 2
      else if space3 b2 b1 b0 then 3 else 0)"

definition bytes :: "string \<Rightarrow> nat list" where
  "bytes s = map of_char s"

lemma leading_space_le: "leading_space bs \<le> length bs"
  by (cases bs rule: leading_space.cases) simp_all

lemma trailing_space_le: "trailing_space bs \<le> length bs"
  by (cases bs rule: trailing_space.cases) simp_all

function TrimLeft :: "string \<Rightarrow> string" where
  "TrimLeft s =
     (if leading_space (bytes s) = 0 then s else TrimLeft (drop (leading_space (bytes s)) s))"
  by pat_completeness auto
termination
proof (relation "measure length")
  show "wf (measure length)" by simp
next
  fix s :: string
  assume "leading_space (bytes s) \<noteq> 0"
  moreover have "leading_space (bytes s) \<le> length s"
    using leading_space_le [of "bytes s"] by (simp add: bytes_def)
  ultimately show "(drop (leading_space (bytes s)) s, s) \<in> measure length"
    by simp
qed

function TrimRight :: "string \<Rightarrow> string" where
  "TrimRight s =
     (if trailing_space (bytes (rev s)) = 0 then s
      else TrimRight (take (length s - trailing_space (bytes (rev s))) s))"
  by pat_completeness auto
termination
proof (relation "measure length")
  show "wf (measure length)" by simp
next
  fix s :: string
  assume "trailing_space (bytes (rev s)) \<noteq> 0"
  moreover have "trailing_space (bytes (rev s)) \<le> length s"
    using trailing_space_le [of "bytes (rev s)"] by (simp add: bytes_def)
  ultimately show "(take (length s - trailing_space (bytes (rev s))) s, s) \<in> measure length"
    by simp
qed

declare TrimLeft.simps [simp del]

declare TrimRight.simps [simp del]

definition TrimSpace :: "string \<Rightarrow> string" where
  "TrimSpace s = TrimRight (TrimLeft s)"

text \<open>
  \<open>strings.Replace(s, old, new, -1)\<close> for one-byte \<open>old\<close> and \<open>new\<close>: every occurrence
  of the byte is replaced.
\<close>

definition Replace :: "string \<Rightarrow> char \<Rightarrow> char \<Rightarrow> string" where
  "Replace s old new = map (\<lambda>c. if c = old then new else c) s"

text \<open>
  \<open>strings.LastIndex(s, sep)\<close> for a one-byte \<open>sep\<close>: the index of its last occurrence
  in \<open>s\<close>, or -1 when there is none.
\<close>

definition LastIndex :: "string \<Rightarrow> char \<Rightarrow> int" where
  "LastIndex s sep = int (length (dropWhile (\<lambda>c. c \<noteq> sep) (rev s))) - 1"

lemma LastIndex_less: "LastIndex s sep < int (length s)"
proof -
  have "length (dropWhile (\<lambda>c. c \<noteq> sep) (rev s)) \<le> length (rev s)"
    by (rule length_dropWhile_le)
  then show ?thesis by (simp add: LastIndex_def)
qed

lemma length_TrimLeft: "length (TrimLeft s) \<le> length s"
proof (induction s rule: TrimLeft.induct)
  case (1 s)
  show ?case
  proof (cases "leading_space (bytes s) = 0")
    case True
    then show ?thesis by (simp add: TrimLeft.simps)
  next
    case False
    then have "length (TrimLeft (drop (leading_space (bytes s)) s)) \<le> length s"
      using "1.IH" by simp
    with False show ?thesis by (subst TrimLeft.simps) simp
  qed
qed

lemma length_TrimRight: "length (TrimRight s) \<le> length s"
proof (induction s rule: TrimRight.induct)
  case (1 s)
  show ?case
  proof (cases "trailing_space (bytes (rev s)) = 0")
    case True
    then show ?thesis by (simp add: TrimRight.simps)
  next
    case False
    then have "length (TrimRight (take (length s - trailing_space (bytes (rev s))) s)) \<le> length s"
      using "1.IH" by simp
    with False show ?thesis by (subst TrimRight.simps) simp
  qed
qed

lemma length_TrimSpace: "length (TrimSpace s) \<le> length s"
  unfolding TrimSpace_def
  using length_TrimRight [of "TrimLeft s"] length_TrimLeft [of s] by simp

subsection \<open>The registry\<close>

text \<open>
  The package variable \<open>languages\<close> is mutable: \<open>Register\<close> writes it. The functions
  that read or write it take the map as the argument \<open>langs\<close>; \<open>languages\<close> above is its
  initial value.
\<close>

function lookup :: "(string \<rightharpoonup> Language) \<Rightarrow> string \<Rightarrow> Language option" where
  "lookup langs languageID =
     (let lid = Replace (TrimSpace languageID) (CHR ''_'') (CHR ''-'') in
      case langs lid of
        Some found \<Rightarrow> Some found
      | None \<Rightarrow>
          (let e = LastIndex lid (CHR ''-'') in
           if e \<ge> 0 then lookup langs (take (nat e) lid) else None))"
  by pat_completeness auto
termination
proof (relation "measure (\<lambda>(langs, languageID). length languageID)")
  show "wf (measure (\<lambda>(langs, languageID). length languageID))" by simp
next
  fix langs :: "string \<rightharpoonup> Language" and languageID lid :: string and e :: int
  assume lid: "lid = Replace (TrimSpace languageID) (CHR ''_'') (CHR ''-'')"
    and e: "e = LastIndex lid (CHR ''-'')" and pos: "0 \<le> e"
  have "nat e < length lid"
    using LastIndex_less [of lid "CHR ''-''"] e pos by simp
  moreover have "length lid \<le> length languageID"
    using length_TrimSpace [of languageID] by (simp add: lid Replace_def)
  ultimately show "((langs, take (nat e) lid), (langs, languageID))
      \<in> measure (\<lambda>(langs, languageID). length languageID)"
    by simp
qed

declare lookup.simps [simp del]

definition Register :: "Language \<Rightarrow> (string \<rightharpoonup> Language) \<Rightarrow> (string \<rightharpoonup> Language)" where
  "Register l langs = langs(ID l \<mapsto> l)"

text \<open>
  \<open>PluralCategory\<close>: the operands of the number, then the language's rule function.
  \<open>plural.NewOperands\<close> is not part of the sources at hand and is the parameter
  \<open>newOperands\<close>; the Go result \<open>(plural.Invalid, err)\<close> is \<open>Inl err\<close>, and
  \<open>(category, nil)\<close> is \<open>Inr category\<close>.
\<close>

definition PluralCategory ::
  "('num \<Rightarrow> 'err + Operands) \<Rightarrow> Language \<Rightarrow> 'num \<Rightarrow> 'err + Category" where
  "PluralCategory newOperands l number =
     (case newOperands number of
        Inl err \<Rightarrow> Inl err
      | Inr ops \<Rightarrow> Inr (PluralFunc l ops))"

text \<open>
  A Language value that a caller may pass to \<open>Register\<close>: it declares the category
  \<open>other\<close> alone, and its rule function returns \<open>one\<close>.
\<close>

definition mislabelled :: Language where
  "mislabelled =
     \<lparr>ID = ''xx'', Name = ''Mislabelled'', PluralCategories = newSet [plural_Other],
      PluralFunc = (\<lambda>ops. plural_One)\<rparr>"

subsection \<open>The fallback of lookup, as the spec words it\<close>

text \<open>
  The spec's words for \<open>lookup\<close>: an exact match on the normalised identifier
  (surrounding white space trimmed, underscores turned into dashes); on a miss the
  identifier is cut from its last dash onward and tried again, until there is a match or
  no dash is left. The definitions of this subsection are written from these words and
  from the Unicode table of white space, and use none of the functions that model the
  code above.

  \<open>space_runes\<close> lists the UTF-8 encodings of the white-space runes one by one.
  \<open>rune_width\<close> is the length of the listed rune that starts a byte list (0 when none
  does), \<open>strip_runes\<close> removes listed runes from the start of a string for as long as
  there is one, and \<open>trim_spec\<close> does so at both ends of a string.
\<close>

definition space_runes :: "nat list list" where
  "space_runes =
     [[0x09], [0x0A], [0x0B], [0x0C], [0x0D], [0x20],
      [0xC2, 0x85], [0xC2, 0xA0],
      [0xE1, 0x9A, 0x80],
      [0xE2, 0x80, 0x80], [0xE2, 0x80, 0x81], [0xE2, 0x80, 0x82], [0xE2, 0x80, 0x83],
      [0xE2, 0x80, 0x84], [0xE2, 0x80, 0x85], [0xE2, 0x80, 0x86], [0xE2, 0x80, 0x87],
      [0xE2, 0x80, 0x88], [0xE2, 0x80, 0x89], [0xE2, 0x80, 0x8A],
      [0xE2, 0x80, 0xA8], [0xE2, 0x80, 0xA9], [0xE2, 0x80, 0xAF],
      [0xE2, 0x81, 0x9F],
      [0xE3, 0x80, 0x80]]"

definition rune_width :: "nat list list \<Rightarrow> nat list \<Rightarrow> nat" where
  "rune_width rs bs =
     (case List.find (\<lambda>r. take (length r) bs = r) rs of None \<Rightarrow> 0 | Some r \<Rightarrow> length r)"

lemma rune_width_Nil: "rune_width rs [] = 0"
  by (auto simp: rune_width_def find_Some_iff split: option.splits)

function strip_runes :: "nat list list \<Rightarrow> string \<Rightarrow> string" where
  "strip_runes rs s =
     (if rune_width rs (map of_char s) = 0 then s
      else strip_runes rs (drop (rune_width rs (map of_char s)) s))"
  by pat_completeness auto
termination
proof (relation "measure (\<lambda>(rs, s). length s)")
  show "wf (measure (\<lambda>(rs, s). length s))" by simp
next
  fix rs :: "nat list list" and s :: string
  assume a: "rune_width rs (map of_char s) \<noteq> 0"
  then have "s \<noteq> []"
    using rune_width_Nil [of rs] by auto
  with a show "((rs, drop (rune_width rs (map of_char s)) s), (rs, s))
      \<in> measure (\<lambda>(rs, s). length s)"
    by simp
qed

declare strip_runes.simps [simp del]

definition trim_spec :: "string \<Rightarrow> string" where
  "trim_spec s = rev (strip_runes (map rev space_runes) (rev (strip_runes space_runes s)))"

lemma length_strip_runes: "length (strip_runes rs s) \<le> length s"
proof (induction rs s rule: strip_runes.induct)
  case (1 rs s)
  show ?case
  proof (cases "rune_width rs (map of_char s) = 0")
    case True
    then show ?thesis by (subst strip_runes.simps) simp
  next
    case False
    then have "length (strip_runes rs (drop (rune_width rs (map of_char s)) s)) \<le> length s"
      using "1.IH" by simp
    with False show ?thesis by (subst strip_runes.simps) simp
  qed
qed

lemma length_trim_spec: "length (trim_spec s) \<le> length s"
  unfolding trim_spec_def
  using length_strip_runes [of "map rev space_runes" "rev (strip_runes space_runes s)"]
    length_strip_runes [of space_runes s]
  by simp

text \<open>
  \<open>normalized\<close> is the normalised identifier, \<open>cut_last_dash\<close> cuts an identifier from
  its last dash onward, \<open>truncations\<close> lists an identifier and its successive cuts, and
  \<open>first_registered\<close> is the first registered language among a list of candidates.
  \<open>lookup_spec\<close> is the lookup of the spec's words: the first registered language among
  the truncations of the normalised identifier.
\<close>

definition normalized :: "string \<Rightarrow> string" where
  "normalized ident = map (\<lambda>c. if c = CHR ''_'' then CHR ''-'' else c) (trim_spec ident)"

definition cut_last_dash :: "string \<Rightarrow> string" where
  "cut_last_dash s = rev (tl (dropWhile (\<lambda>c. c \<noteq> CHR ''-'') (rev s)))"

lemma length_cut_last_dash: "CHR ''-'' \<in> set s \<Longrightarrow> length (cut_last_dash s) < length s"
proof -
  assume a: "CHR ''-'' \<in> set s"
  have "dropWhile (\<lambda>c. c \<noteq> CHR ''-'') (rev s) \<noteq> []"
    using a by (simp add: dropWhile_eq_Nil_conv)
  moreover have "length (dropWhile (\<lambda>c. c \<noteq> CHR ''-'') (rev s)) \<le> length (rev s)"
    by (rule length_dropWhile_le)
  ultimately show ?thesis
    by (cases "dropWhile (\<lambda>c. c \<noteq> CHR ''-'') (rev s)") (simp_all add: cut_last_dash_def)
qed

function truncations :: "string \<Rightarrow> string list" where
  "truncations s =
     s # (if CHR ''-'' \<in> set s then truncations (cut_last_dash s) else [])"
  by pat_completeness auto
termination
  by (relation "measure length") (simp_all add: length_cut_last_dash)

declare truncations.simps [simp del]

fun first_registered :: "(string \<rightharpoonup> Language) \<Rightarrow> string list \<Rightarrow> Language option" where
  "first_registered langs [] = None"
| "first_registered langs (c # cs) =
     (case langs c of Some found \<Rightarrow> Some found | None \<Rightarrow> first_registered langs cs)"

definition lookup_spec :: "(string \<rightharpoonup> Language) \<Rightarrow> string \<Rightarrow> Language option" where
  "lookup_spec langs ident = first_registered langs (truncations (normalized ident))"

text \<open>
  The candidates of a lookup that normalises again each time it tries a cut identifier:
  the normalised identifier, then the normalised cut of it, and so on while there is a
  dash.
\<close>

function fallback_chain :: "string \<Rightarrow> string list" where
  "fallback_chain ident =
     normalized ident #
       (if CHR ''-'' \<in> set (normalized ident) then fallback_chain (cut_last_dash (normalized ident))
        else [])"
  by pat_completeness auto
termination
proof (relation "measure length")
  show "wf (measure length)" by simp
next
  fix ident :: string
  assume a: "CHR ''-'' \<in> set (normalized ident)"
  have "length (normalized ident) \<le> length ident"
    using length_trim_spec [of ident] by (simp add: normalized_def)
  with length_cut_last_dash [OF a]
  show "(cut_last_dash (normalized ident), ident) \<in> measure length"
    by simp
qed

declare fallback_chain.simps [simp del]

text \<open>A byte of printable ASCII other than the space.\<close>

definition graphic :: "char \<Rightarrow> bool" where
  "graphic c = (0x21 \<le> (of_char c :: nat) \<and> (of_char c :: nat) \<le> 0x7E)"

section \<open>Package plural: operand extraction\<close>

text \<open>
  Modelled from the spec: the function \<open>plural.NewOperands\<close>, which
  \<open>Language.PluralCategory\<close> calls and which is not part of the sources at hand. The
  definitions of this section follow section 4.1 of the spec (OperandExtractor) step by
  step: the input is normalised to a sign-stripped decimal representation, an
  integer-digit string and a fraction-digit string, exponential notation being expanded
  to positional form; the operands are read off the two digit strings. A malformed
  string is the error \<open>InvalidNumber\<close>. Of the input's three tags the integer and the
  decimal string are modelled; the binary floating-point tag is left out.
\<close>

datatype NumericInput = NumInt int | NumStr string

datatype error = InvalidNumber

definition is_digit :: "char \<Rightarrow> bool" where
  "is_digit c = (48 \<le> (of_char c :: nat) \<and> (of_char c :: nat) \<le> 57)"

definition digit_val :: "char \<Rightarrow> nat" where
  "digit_val c = of_char c - 48"

definition nat_of_digits :: "string \<Rightarrow> nat" where
  "nat_of_digits ds = foldl (\<lambda>a c. 10 * a + digit_val c) 0 ds"

definition digit_char :: "nat \<Rightarrow> char" where
  "digit_char d = char_of (48 + d)"

function digits_of_nat :: "nat \<Rightarrow> string" where
  "digits_of_nat n =
     (if n < 10 then [digit_char n] else digits_of_nat (n div 10) @ [digit_char (n mod 10)])"
  by pat_completeness auto
termination
  by (relation "measure id") simp_all

declare digits_of_nat.simps [simp del]

definition is_sign :: "char \<Rightarrow> bool" where
  "is_sign c = (c = CHR ''+'' \<or> c = CHR ''-'')"

definition is_exp_mark :: "char \<Rightarrow> bool" where
  "is_exp_mark c = (c = CHR ''e'' \<or> c = CHR ''E'')"

fun strip_sign :: "string \<Rightarrow> string" where
  "strip_sign [] = []"
| "strip_sign (c # cs) = (if is_sign c then cs else c # cs)"

definition strip_trailing_zeros :: "string \<Rightarrow> string" where
  "strip_trailing_zeros ds = rev (dropWhile (\<lambda>c. c = CHR ''0'') (rev ds))"

text \<open>
  Modelled from the spec: the exponent of exponential notation, which follows the mark: an
  optional sign and at least one digit.
\<close>

fun parse_exponent :: "string \<Rightarrow> int option" where
  "parse_exponent [] = None"
| "parse_exponent (c # cs) =
     (let ds = strip_sign (c # cs) in
      if ds \<noteq> [] \<and> list_all is_digit ds
      then Some (if c = CHR ''-'' then - int (nat_of_digits ds) else int (nat_of_digits ds))
      else None)"

text \<open>
  Modelled from the spec: the expansion of exponential notation to positional form, the
  digits of the mantissa with the decimal point moved by the exponent, zeros being filled
  in where the point leaves the digits.
\<close>

definition expand :: "string \<Rightarrow> string \<Rightarrow> int \<Rightarrow> string \<times> string" where
  "expand ip fp e =
     (let ds = ip @ fp; p = int (length ip) + e in
      if p \<le> 0 then ([], replicate (nat (- p)) (CHR ''0'') @ ds)
      else if p \<ge> int (length ds) then (ds @ replicate (nat p - length ds) (CHR ''0''), [])
      else (take (nat p) ds, drop (nat p) ds))"

text \<open>
  Modelled from the spec: step 1 of the algorithm, for a string: the sign is dropped, the
  mantissa ends at the exponent mark, the integer digits end at the first decimal point,
  and the fraction digits are what follows it. Both parts must be digits and not both
  empty (the integer part may be empty, as in ".5"); a second decimal point is therefore
  refused.
\<close>

definition parse_decimal :: "string \<Rightarrow> (string \<times> string) option" where
  "parse_decimal s =
     (let body = strip_sign s;
          mant = takeWhile (\<lambda>c. \<not> is_exp_mark c) body;
          rest = dropWhile (\<lambda>c. \<not> is_exp_mark c) body;
          ip = takeWhile (\<lambda>c. c \<noteq> CHR ''.'') mant;
          fp = drop 1 (dropWhile (\<lambda>c. c \<noteq> CHR ''.'') mant);
          ex = (if rest = [] then Some 0 else parse_exponent (drop 1 rest))
      in if list_all is_digit ip \<and> list_all is_digit fp \<and> ip @ fp \<noteq> []
         then (case ex of None \<Rightarrow> None | Some e \<Rightarrow> Some (expand ip fp e))
         else None)"

text \<open>
  Modelled from the spec: steps 2 to 7 of the algorithm, the operands of an integer-digit
  and a fraction-digit string.
\<close>

definition operands_of :: "string \<times> string \<Rightarrow> Operands" where
  "operands_of d =
     (let ip = fst d; fp = snd d in
      \<lparr>ops_N = of_nat (nat_of_digits ip) + of_nat (nat_of_digits fp) / 10 ^ length fp,
       ops_I = nat_of_digits ip,
       ops_V = length fp,
       ops_W = length (strip_trailing_zeros fp),
       ops_F = nat_of_digits fp,
       ops_T = nat_of_digits (strip_trailing_zeros fp)\<rparr>)"

text \<open>
  Modelled from the spec: \<open>plural.NewOperands\<close> itself, with one normalisation path for
  each tag of the input. An integer has its absolute value's digits and no fraction
  digits.
\<close>

fun NewOperands :: "NumericInput \<Rightarrow> error + Operands" where
  "NewOperands (NumInt k) = Inr (operands_of (digits_of_nat (nat \<bar>k\<bar>), []))"
| "NewOperands (NumStr s) =
     (case parse_decimal s of
        None \<Rightarrow> Inl InvalidNumber
      | Some d \<Rightarrow> Inr (operands_of d))"

subsection \<open>Well-formed numbers\<close>

text \<open>
  Modelled from the spec: the well-formed decimal string, read from left to right: an
  optional sign, digits, optionally a decimal point and digits, optionally an exponent
  mark with an optionally signed run of at least one digit; the mantissa has at least one
  digit. The flag says whether a digit of the mantissa (of the exponent, for
  \<open>wf_exp_digits\<close>) has been read.
\<close>

fun wf_exp_digits :: "bool \<Rightarrow> string \<Rightarrow> bool" where
  "wf_exp_digits seen [] = seen"
| "wf_exp_digits seen (c # cs) = (is_digit c \<and> wf_exp_digits True cs)"

fun wf_exponent :: "string \<Rightarrow> bool" where
  "wf_exponent [] = False"
| "wf_exponent (c # cs) = (if is_sign c then wf_exp_digits False cs else wf_exp_digits False (c # cs))"

fun wf_fraction :: "bool \<Rightarrow> string \<Rightarrow> bool" where
  "wf_fraction seen [] = seen"
| "wf_fraction seen (c # cs) =
     (if is_digit c then wf_fraction True cs
      else if is_exp_mark c then seen \<and> wf_exponent cs
      else False)"

fun wf_integer :: "bool \<Rightarrow> string \<Rightarrow> bool" where
  "wf_integer seen [] = seen"
| "wf_integer seen (c # cs) =
     (if is_digit c then wf_integer True cs
      else if c = CHR ''.'' then wf_fraction seen cs
      else if is_exp_mark c then seen \<and> wf_exponent cs
      else False)"

definition well_formed :: "string \<Rightarrow> bool" where
  "well_formed s = wf_integer False (strip_sign s)"

text \<open>The bytes a well-formed number is made of.\<close>

definition numeric_char :: "char \<Rightarrow> bool" where
  "numeric_char c = (is_digit c \<or> is_sign c \<or> c = CHR ''.'' \<or> is_exp_mark c)"

section \<open>Facts about the translation table\<close>

lemma entry_init_state: "entry (translations_tbl init_state) l i = None"
  by (simp add: entry_def init_state_def)

lemma entry_AddTranslation:
  "entry (translations_tbl (snd (AddTranslation msg_Id locale context content translation s))) l i =
     (if l = locale \<and> i = msg_Id context content then Some translation
      else entry (translations_tbl s) l i)"
  by (simp add: AddTranslation_def entry_def Let_def split: option.splits)

lemma fst_AddTranslation:
  "fst (AddTranslation msg_Id locale context content translation s) = msg_Id context content"
  by (simp add: AddTranslation_def Let_def)

lemma currentLocale_AddTranslation:
  "currentLocale (snd (AddTranslation msg_Id locale context content translation s)) = currentLocale s"
  by (simp add: AddTranslation_def Let_def)

lemma allocated_AddTranslation:
  "allocated (snd (AddTranslation msg_Id locale context content translation s)) = allocated s"
  by (simp add: AddTranslation_def Let_def)

lemma AddTranslation_twice:
  "snd (AddTranslation msg_Id locale context content t2
          (snd (AddTranslation msg_Id locale context content t1 s))) =
   snd (AddTranslation msg_Id locale context content t2 s)"
  by (simp add: AddTranslation_def Let_def split: option.splits)

lemma fst_NewMessage:
  "fst (NewMessage msg_Id content context s) = \<lparr>Message_id = msg_Id context content\<rparr>"
  by (simp add: NewMessage_def AddTranslation_def Let_def)

lemma translations_NewMessage:
  "translations_tbl (snd (NewMessage msg_Id content context s)) =
   translations_tbl (snd (AddTranslation msg_Id defaultLocale context content content s))"
  by (simp add: NewMessage_def AddTranslation_def Let_def)

lemma currentLocale_NewMessage:
  "currentLocale (snd (NewMessage msg_Id content context s)) = currentLocale s"
  by (simp add: NewMessage_def AddTranslation_def Let_def)

lemma entry_exec_op:
  "entry (translations_tbl (exec_op msg_Id s x)) l i =
     (case x of
        OpAddTranslation locale context content translation \<Rightarrow>
          if written_key msg_Id x = Some (l, i) then Some translation
          else entry (translations_tbl s) l i
      | OpNewMessage content context \<Rightarrow>
          if written_key msg_Id x = Some (l, i) then Some content
          else entry (translations_tbl s) l i
      | _ \<Rightarrow> entry (translations_tbl s) l i)"
  by (cases x) (simp_all add: entry_AddTranslation translations_NewMessage SetLocale_def eq_commute)

lemma entry_exec_op_other:
  "written_key msg_Id x \<noteq> Some (l, i) \<Longrightarrow>
   entry (translations_tbl (exec_op msg_Id s x)) l i = entry (translations_tbl s) l i"
  by (cases x) (auto simp: entry_AddTranslation translations_NewMessage SetLocale_def)

lemma entry_run_other:
  "list_all (\<lambda>x. written_key msg_Id x \<noteq> Some (l, i)) ops \<Longrightarrow>
   entry (translations_tbl (run msg_Id s ops)) l i = entry (translations_tbl s) l i"
  unfolding run_def
  by (induction ops arbitrary: s) (simp_all add: entry_exec_op_other)

lemma translations_exec_op_no_write:
  "written_key msg_Id x = None \<Longrightarrow> translations_tbl (exec_op msg_Id s x) = translations_tbl s"
  by (cases x) (simp_all add: SetLocale_def)

lemma translations_run_no_write:
  "list_all (\<lambda>x. written_key msg_Id x = None) ops \<Longrightarrow>
   translations_tbl (run msg_Id s ops) = translations_tbl s"
  unfolding run_def
  by (induction ops arbitrary: s) (simp_all add: translations_exec_op_no_write)

lemma String_after_NewMessage_SetLocale:
  "entry (translations_tbl (SetLocale l (snd (NewMessage msg_Id content context init_state))))
     l (Message_id (fst (NewMessage msg_Id content context init_state))) =
     (if l = defaultLocale then Some content else None)
   \<and> Message_String (SetLocale l (snd (NewMessage msg_Id content context init_state)))
       (fst (NewMessage msg_Id content context init_state)) = content"
  by (simp add: Message_String_def SetLocale_def fst_NewMessage translations_NewMessage
      entry_AddTranslation entry_init_state)

lemma String_after_default_overwritten:
  "l \<noteq> defaultLocale \<Longrightarrow>
   entry (translations_tbl
       (run msg_Id init_state
          [OpNewMessage content context, OpAddTranslation defaultLocale context content t,
           OpSetLocale l]))
     l (Message_id (fst (NewMessage msg_Id content context init_state))) = None
   \<and> Message_String
       (run msg_Id init_state
          [OpNewMessage content context, OpAddTranslation defaultLocale context content t,
           OpSetLocale l])
       (fst (NewMessage msg_Id content context init_state)) = t"
  by (simp add: run_def Message_String_def SetLocale_def fst_NewMessage translations_NewMessage
      entry_AddTranslation entry_init_state)

section \<open>The model of TrimSpace and the table of white-space runes\<close>

lemma range_80_8A:
  "((0x80::nat) \<le> b \<and> b \<le> 0x8A) =
     (b = 0x80 \<or> b = 0x81 \<or> b = 0x82 \<or> b = 0x83 \<or> b = 0x84 \<or> b = 0x85 \<or> b = 0x86 \<or> b = 0x87
      \<or> b = 0x88 \<or> b = 0x89 \<or> b = 0x8A)"
  by arith

lemma lead_ascii: "asciiSpace b0 \<Longrightarrow> rune_width space_runes (b0 # bs) = 1"
  unfolding asciiSpace_def
  by (elim disjE) (simp_all add: rune_width_def space_runes_def)

lemma lead_two:
  "b1 = 0x85 \<or> b1 = 0xA0 \<Longrightarrow> rune_width space_runes (0xC2 # b1 # bs) = 2"
  by (elim disjE) (simp_all add: rune_width_def space_runes_def)

lemma lead_three: "space3 b0 b1 b2 \<Longrightarrow> rune_width space_runes (b0 # b1 # b2 # bs) = 3"
  unfolding space3_def range_80_8A
  by (elim disjE conjE) (simp_all add: rune_width_def space_runes_def)

lemma lead_none_1: "\<not> asciiSpace b0 \<Longrightarrow> rune_width space_runes [b0] = 0"
  by (simp add: rune_width_def space_runes_def asciiSpace_def)

lemma lead_none_2:
  "\<not> asciiSpace b0 \<Longrightarrow> \<not> (b0 = 0xC2 \<and> (b1 = 0x85 \<or> b1 = 0xA0)) \<Longrightarrow>
   rune_width space_runes [b0, b1] = 0"
  by (simp add: rune_width_def space_runes_def asciiSpace_def)

lemma lead_none_3:
  "\<not> asciiSpace b0 \<Longrightarrow> \<not> (b0 = 0xC2 \<and> (b1 = 0x85 \<or> b1 = 0xA0)) \<Longrightarrow> \<not> space3 b0 b1 b2 \<Longrightarrow>
   rune_width space_runes (b0 # b1 # b2 # bs) = 0"
  by (simp add: rune_width_def space_runes_def asciiSpace_def space3_def range_80_8A)

lemma leading_space_runes: "leading_space bs = rune_width space_runes bs"
proof (cases bs rule: leading_space.cases)
  case 1
  then show ?thesis by (simp add: rune_width_Nil)
next
  case (2 b0)
  then show ?thesis
    by (cases "asciiSpace b0") (simp_all add: lead_ascii lead_none_1)
next
  case (3 b0 b1)
  consider (a) "asciiSpace b0" | (t) "\<not> asciiSpace b0" "b0 = 0xC2 \<and> (b1 = 0x85 \<or> b1 = 0xA0)"
    | (n) "\<not> asciiSpace b0" "\<not> (b0 = 0xC2 \<and> (b1 = 0x85 \<or> b1 = 0xA0))"
    by blast
  then show ?thesis
  proof cases
    case a
    with 3 show ?thesis by (simp add: lead_ascii)
  next
    case t
    with 3 show ?thesis using lead_two [of b1 "[]"] by auto
  next
    case n
    with 3 show ?thesis using lead_none_2 [of b0 b1] by auto
  qed
next
  case (4 b0 b1 b2 rest)
  consider (a) "asciiSpace b0" | (t) "\<not> asciiSpace b0" "b0 = 0xC2 \<and> (b1 = 0x85 \<or> b1 = 0xA0)"
    | (s) "\<not> asciiSpace b0" "\<not> (b0 = 0xC2 \<and> (b1 = 0x85 \<or> b1 = 0xA0))" "space3 b0 b1 b2"
    | (n) "\<not> asciiSpace b0" "\<not> (b0 = 0xC2 \<and> (b1 = 0x85 \<or> b1 = 0xA0))" "\<not> space3 b0 b1 b2"
    by blast
  then show ?thesis
  proof cases
    case a
    with 4 show ?thesis by (simp add: lead_ascii)
  next
    case t
    with 4 show ?thesis using lead_two [of b1 "b2 # rest"] by auto
  next
    case s
    with 4 show ?thesis using lead_three [of b0 b1 b2 rest] by auto
  next
    case n
    with 4 show ?thesis using lead_none_3 [of b0 b1 b2 rest] by auto
  qed
qed

lemma ascii_in_runes: "asciiSpace b \<Longrightarrow> [b] \<in> set space_runes"
  unfolding asciiSpace_def
  by (elim disjE) (simp_all add: space_runes_def)

lemma two_in_runes: "b = 0x85 \<or> b = 0xA0 \<Longrightarrow> [0xC2, b] \<in> set space_runes"
  by (elim disjE) (simp_all add: space_runes_def)

lemma three_in_runes: "space3 a b c \<Longrightarrow> [a, b, c] \<in> set space_runes"
  unfolding space3_def range_80_8A
  by (elim disjE conjE) (simp_all add: space_runes_def)

lemma runes_shape:
  "r \<in> set space_runes \<Longrightarrow>
   (\<exists>b. r = [b] \<and> asciiSpace b)
   \<or> (\<exists>b. r = [0xC2, b] \<and> (b = 0x85 \<or> b = 0xA0))
   \<or> (\<exists>a b c. r = [a, b, c] \<and> space3 a b c)"
  unfolding space_runes_def set_simps insert_iff empty_iff
  by (elim disjE FalseE) (simp_all add: asciiSpace_def space3_def)

lemma trailing_ascii: "asciiSpace b \<Longrightarrow> trailing_space (b # bs) = 1"
  by (cases "b # bs" rule: trailing_space.cases) auto

lemma trailing_two:
  "b = 0x85 \<or> b = 0xA0 \<Longrightarrow> trailing_space (b # 0xC2 # bs) = 2"
  by (cases "b # 0xC2 # bs" rule: trailing_space.cases) (auto simp: asciiSpace_def)

lemma trailing_three: "space3 a b c \<Longrightarrow> trailing_space (c # b # a # bs) = 3"
proof -
  assume s: "space3 a b c"
  then have "\<not> asciiSpace c" and "b \<noteq> 0xC2"
    unfolding space3_def range_80_8A asciiSpace_def by auto
  with s show ?thesis by simp
qed

lemma take_Suc_Cons: "take (Suc n) xs = y # ys \<Longrightarrow> \<exists>zs. xs = y # zs \<and> take n zs = ys"
  by (cases xs) auto

lemma trailing_match:
  assumes "r \<in> set space_runes" and "take (length r) bs = rev r"
  shows "trailing_space bs = length r"
proof -
  from runes_shape [OF assms(1)]
  consider (one) b where "r = [b]" "asciiSpace b"
    | (two) b where "r = [0xC2, b]" "b = 0x85 \<or> b = 0xA0"
    | (three) a b c where "r = [a, b, c]" "space3 a b c"
    by blast
  then show ?thesis
  proof cases
    case one
    with assms(2) obtain zs where "bs = b # zs"
      using take_Suc_Cons [of 0 bs b "[]"] by auto
    with one show ?thesis by (simp add: trailing_ascii)
  next
    case two
    with assms(2) have "take (Suc (Suc 0)) bs = [b, 0xC2]" by simp
    then obtain zs where "bs = b # 0xC2 # zs"
      by (metis take_Suc_Cons)
    with two show ?thesis by (simp add: trailing_two)
  next
    case three
    with assms(2) have "take (Suc (Suc (Suc 0))) bs = [c, b, a]" by simp
    then obtain zs where bs: "bs = c # b # a # zs"
      by (metis take_Suc_Cons)
    have "trailing_space (c # b # a # zs) = 3"
      using three(2) by (rule trailing_three)
    with bs three(1) show ?thesis by (simp del: trailing_space.simps)
  qed
qed

lemma trailing_exists:
  "trailing_space bs \<noteq> 0 \<Longrightarrow> \<exists>r\<in>set space_runes. take (length r) bs = rev r"
proof (cases bs rule: trailing_space.cases)
  case 1
  assume "trailing_space bs \<noteq> 0"
  with 1 show ?thesis by simp
next
  case (2 b0)
  assume "trailing_space bs \<noteq> 0"
  with 2 have "asciiSpace b0" by (simp split: if_splits)
  with 2 show ?thesis using ascii_in_runes [of b0] by force
next
  case (3 b0 b1)
  assume "trailing_space bs \<noteq> 0"
  with 3 consider "asciiSpace b0" | "b1 = 0xC2" "b0 = 0x85 \<or> b0 = 0xA0"
    by (auto split: if_splits)
  then show ?thesis
  proof cases
    case 1
    with 3 show ?thesis using ascii_in_runes [of b0] by force
  next
    case 2
    with 3 show ?thesis using two_in_runes [of b0] by force
  qed
next
  case (4 b0 b1 b2 rest)
  assume "trailing_space bs \<noteq> 0"
  with 4 consider "asciiSpace b0" | "b1 = 0xC2" "b0 = 0x85 \<or> b0 = 0xA0" | "space3 b2 b1 b0"
    by (auto split: if_splits)
  then show ?thesis
  proof cases
    case 1
    with 4 show ?thesis using ascii_in_runes [of b0] by force
  next
    case 2
    with 4 show ?thesis using two_in_runes [of b0] by force
  next
    case 3
    with 4 show ?thesis using three_in_runes [of b2 b1 b0] by force
  qed
qed

lemma trailing_space_runes: "trailing_space bs = rune_width (map rev space_runes) bs"
proof (cases "List.find (\<lambda>r. take (length r) bs = r) (map rev space_runes)")
  case None
  then have no: "\<And>r. r \<in> set space_runes \<Longrightarrow> take (length r) bs \<noteq> rev r"
    by (force simp: find_None_iff)
  have "trailing_space bs = 0"
  proof (rule ccontr)
    assume "trailing_space bs \<noteq> 0"
    from trailing_exists [OF this] no show False by blast
  qed
  with None show ?thesis by (simp add: rune_width_def)
next
  case (Some r')
  then have "r' \<in> set (map rev space_runes)" and m: "take (length r') bs = r'"
    by (auto simp: find_Some_iff)
  then obtain r where r: "r \<in> set space_runes" and r': "r' = rev r"
    by auto
  from m r' have "take (length r) bs = rev r" by simp
  from trailing_match [OF r this] Some r' show ?thesis
    by (simp add: rune_width_def)
qed

lemma TrimLeft_strip_runes: "TrimLeft s = strip_runes space_runes s"
proof (induction s rule: TrimLeft.induct)
  case (1 s)
  have w: "leading_space (bytes s) = rune_width space_runes (map of_char s)"
    by (simp add: leading_space_runes bytes_def)
  show ?case
  proof (cases "leading_space (bytes s) = 0")
    case True
    then show ?thesis
      by (subst TrimLeft.simps, subst strip_runes.simps) (simp add: w)
  next
    case False
    with "1.IH" have "TrimLeft (drop (leading_space (bytes s)) s) =
        strip_runes space_runes (drop (leading_space (bytes s)) s)"
      by simp
    with False show ?thesis
      by (subst TrimLeft.simps, subst strip_runes.simps) (simp add: w)
  qed
qed

lemma TrimRight_strip_runes: "TrimRight s = rev (strip_runes (map rev space_runes) (rev s))"
proof (induction s rule: TrimRight.induct)
  case (1 s)
  have w: "trailing_space (bytes (rev s)) = rune_width (map rev space_runes) (map of_char (rev s))"
    by (simp add: trailing_space_runes bytes_def)
  show ?case
  proof (cases "trailing_space (bytes (rev s)) = 0")
    case True
    then show ?thesis
      by (subst TrimRight.simps, subst strip_runes.simps) (simp add: w)
  next
    case False
    let ?n = "trailing_space (bytes (rev s))"
    from False "1.IH" have ih: "TrimRight (take (length s - ?n) s) =
        rev (strip_runes (map rev space_runes) (rev (take (length s - ?n) s)))"
      by simp
    have "?n \<le> length s"
      using trailing_space_le [of "bytes (rev s)"] by (simp add: bytes_def)
    then have "rev (take (length s - ?n) s) = drop ?n (rev s)"
      by (simp add: rev_take)
    with ih False show ?thesis
      by (subst TrimRight.simps, subst strip_runes.simps) (simp add: w)
  qed
qed

lemma TrimSpace_trim_spec: "TrimSpace s = trim_spec s"
  by (simp add: TrimSpace_def trim_spec_def TrimLeft_strip_runes TrimRight_strip_runes)

lemma Replace_normalized:
  "Replace (TrimSpace ident) (CHR ''_'') (CHR ''-'') = normalized ident"
  by (simp add: Replace_def normalized_def TrimSpace_trim_spec)

section \<open>Facts about lookup\<close>

lemma LastIndex_nonneg_iff: "(0 \<le> LastIndex s sep) = (sep \<in> set s)"
proof -
  have "(dropWhile (\<lambda>c. c \<noteq> sep) (rev s) = []) = (sep \<notin> set s)"
    by (auto simp: dropWhile_eq_Nil_conv)
  then show ?thesis
    by (cases "dropWhile (\<lambda>c. c \<noteq> sep) (rev s)") (simp_all add: LastIndex_def)
qed

lemma take_LastIndex:
  assumes "CHR ''-'' \<in> set s"
  shows "take (nat (LastIndex s (CHR ''-''))) s = cut_last_dash s"
proof -
  let ?P = "\<lambda>c. c \<noteq> CHR ''-''"
  have ne: "dropWhile ?P (rev s) \<noteq> []"
    using assms by (simp add: dropWhile_eq_Nil_conv)
  then obtain c b where cb: "dropWhile ?P (rev s) = c # b"
    by (cases "dropWhile ?P (rev s)") auto
  have "rev s = takeWhile ?P (rev s) @ c # b"
    using takeWhile_dropWhile_id [of ?P "rev s"] cb by simp
  then have "s = rev (takeWhile ?P (rev s) @ c # b)"
    by (metis rev_rev_ident)
  then have s: "s = rev b @ c # rev (takeWhile ?P (rev s))"
    by simp
  have "take (length b) s = rev b"
    by (subst s) simp
  then show ?thesis
    by (simp add: LastIndex_def cut_last_dash_def cb)
qed

lemma lookup_step:
  "lookup langs ident =
     (case langs (normalized ident) of
        Some found \<Rightarrow> Some found
      | None \<Rightarrow>
          if CHR ''-'' \<in> set (normalized ident) then lookup langs (cut_last_dash (normalized ident))
          else None)"
  by (subst lookup.simps)
     (simp add: Let_def Replace_normalized LastIndex_nonneg_iff take_LastIndex
        split: option.splits)

lemma lookup_first_registered: "lookup langs ident = first_registered langs (fallback_chain ident)"
proof (induction ident rule: fallback_chain.induct)
  case (1 ident)
  show ?case
  proof (cases "CHR ''-'' \<in> set (normalized ident)")
    case True
    with "1.IH" have "lookup langs (cut_last_dash (normalized ident)) =
        first_registered langs (fallback_chain (cut_last_dash (normalized ident)))"
      by simp
    with True show ?thesis
      by (subst lookup_step, subst fallback_chain.simps) (simp split: option.splits)
  next
    case False
    then show ?thesis
      by (subst lookup_step, subst fallback_chain.simps) (simp split: option.splits)
  qed
qed

lemma first_registered_None:
  "(first_registered langs cs = None) = (\<forall>c\<in>set cs. langs c = None)"
  by (induction cs) (auto split: option.splits)

lemma graphic_leading: "graphic c \<Longrightarrow> leading_space (bytes (c # cs)) = 0"
  by (cases "bytes (c # cs)" rule: leading_space.cases)
     (auto simp: graphic_def bytes_def asciiSpace_def space3_def)

lemma graphic_trailing: "graphic c \<Longrightarrow> trailing_space (bytes (c # cs)) = 0"
  by (cases "bytes (c # cs)" rule: trailing_space.cases)
     (auto simp: graphic_def bytes_def asciiSpace_def space3_def)

lemma TrimLeft_graphic: "list_all graphic s \<Longrightarrow> TrimLeft s = s"
proof (cases s)
  case Nil
  have "leading_space (bytes []) = 0" by (simp add: bytes_def)
  with Nil show ?thesis by (subst TrimLeft.simps) simp
next
  case (Cons c cs)
  assume "list_all graphic s"
  with Cons have "graphic c" by simp
  then have "leading_space (bytes s) = 0"
    using graphic_leading [of c cs] Cons by simp
  then show ?thesis by (subst TrimLeft.simps) simp
qed

lemma TrimRight_graphic: "list_all graphic s \<Longrightarrow> TrimRight s = s"
proof (cases "rev s")
  case Nil
  have "trailing_space (bytes []) = 0" by (simp add: bytes_def)
  with Nil show ?thesis by (subst TrimRight.simps) simp
next
  case (Cons c cs)
  assume "list_all graphic s"
  then have "list_all graphic (rev s)"
    by (simp add: list_all_iff)
  with Cons have "graphic c" by simp
  then have "trailing_space (bytes (rev s)) = 0"
    using graphic_trailing [of c cs] Cons by simp
  then show ?thesis by (subst TrimRight.simps) simp
qed

lemma TrimSpace_graphic: "list_all graphic s \<Longrightarrow> TrimSpace s = s"
  by (simp add: TrimSpace_def TrimLeft_graphic TrimRight_graphic)

lemma trim_spec_graphic: "list_all graphic s \<Longrightarrow> trim_spec s = s"
  using TrimSpace_graphic [of s] by (simp add: TrimSpace_trim_spec)

lemma dashes_absent:
  "CHR ''_'' \<notin> set s \<Longrightarrow> map (\<lambda>c. if c = CHR ''_'' then CHR ''-'' else c) s = s"
  by (induction s) auto

lemma normalized_stable: "trim_spec s = s \<Longrightarrow> CHR ''_'' \<notin> set s \<Longrightarrow> normalized s = s"
  by (simp add: normalized_def dashes_absent)

lemma no_underscore_normalized: "CHR ''_'' \<notin> set (normalized ident)"
  by (auto simp: normalized_def)

lemma graphic_normalized:
  "list_all graphic (trim_spec ident) \<Longrightarrow> list_all graphic (normalized ident)"
  by (auto simp: normalized_def list_all_iff graphic_def)

lemma set_cut_last_dash: "set (cut_last_dash s) \<subseteq> set s"
proof -
  have tl: "set (tl xs) \<subseteq> set xs" for xs :: string
    by (cases xs) auto
  have "set (dropWhile (\<lambda>c. c \<noteq> CHR ''-'') (rev s)) \<subseteq> set (rev s)"
    by (auto dest: set_dropWhileD)
  with tl [of "dropWhile (\<lambda>c. c \<noteq> CHR ''-'') (rev s)"]
  have "set (tl (dropWhile (\<lambda>c. c \<noteq> CHR ''-'') (rev s))) \<subseteq> set (rev s)"
    by (rule subset_trans)
  then show ?thesis by (simp add: cut_last_dash_def)
qed

lemma fallback_chain_stable:
  "list_all (\<lambda>t. trim_spec t = t) (truncations s) \<Longrightarrow> CHR ''_'' \<notin> set s \<Longrightarrow>
   fallback_chain s = truncations s"
proof (induction s rule: truncations.induct)
  case (1 s)
  from "1.prems"(1) have st: "trim_spec s = s"
    by (subst (asm) truncations.simps) simp
  then have n: "normalized s = s"
    using "1.prems"(2) by (rule normalized_stable)
  show ?case
  proof (cases "CHR ''-'' \<in> set s")
    case True
    from "1.prems"(1) True have "list_all (\<lambda>t. trim_spec t = t) (truncations (cut_last_dash s))"
      by (subst (asm) truncations.simps) simp
    moreover have "CHR ''_'' \<notin> set (cut_last_dash s)"
      using "1.prems"(2) set_cut_last_dash [of s] by auto
    ultimately have "fallback_chain (cut_last_dash s) = truncations (cut_last_dash s)"
      using "1.IH" True by simp
    with True n show ?thesis
      by (subst fallback_chain.simps, subst truncations.simps) simp
  next
    case False
    with n show ?thesis
      by (subst fallback_chain.simps, subst truncations.simps) simp
  qed
qed

lemma fallback_chain_truncations:
  assumes "list_all (\<lambda>t. trim_spec t = t) (truncations (normalized ident))"
  shows "fallback_chain ident = truncations (normalized ident)"
proof (cases "CHR ''-'' \<in> set (normalized ident)")
  case True
  from assms True
  have "list_all (\<lambda>t. trim_spec t = t) (truncations (cut_last_dash (normalized ident)))"
    by (subst (asm) truncations.simps) simp
  moreover have "CHR ''_'' \<notin> set (cut_last_dash (normalized ident))"
    using no_underscore_normalized [of ident] set_cut_last_dash [of "normalized ident"] by auto
  ultimately have "fallback_chain (cut_last_dash (normalized ident)) =
      truncations (cut_last_dash (normalized ident))"
    by (rule fallback_chain_stable)
  with True show ?thesis
    by (subst fallback_chain.simps, subst truncations.simps) simp
next
  case False
  then show ?thesis
    by (subst fallback_chain.simps, subst truncations.simps) simp
qed

lemma truncations_graphic:
  "list_all graphic s \<Longrightarrow> list_all (\<lambda>t. trim_spec t = t) (truncations s)"
proof (induction s rule: truncations.induct)
  case (1 s)
  have st: "trim_spec s = s"
    using "1.prems" by (rule trim_spec_graphic)
  show ?case
  proof (cases "CHR ''-'' \<in> set s")
    case True
    have "list_all graphic (cut_last_dash s)"
      using "1.prems" set_cut_last_dash [of s] by (auto simp: list_all_iff)
    with "1.IH" True have "list_all (\<lambda>t. trim_spec t = t) (truncations (cut_last_dash s))"
      by simp
    with True st show ?thesis
      by (subst truncations.simps) simp
  next
    case False
    with st show ?thesis
      by (subst truncations.simps) simp
  qed
qed

lemma last_fallback_chain: "CHR ''-'' \<notin> set (last (fallback_chain ident))"
proof (induction ident rule: fallback_chain.induct)
  case (1 ident)
  show ?case
  proof (cases "CHR ''-'' \<in> set (normalized ident)")
    case True
    have ne: "fallback_chain (cut_last_dash (normalized ident)) \<noteq> []"
      by (subst fallback_chain.simps) simp
    from True "1.IH" have "CHR ''-'' \<notin> set (last (fallback_chain (cut_last_dash (normalized ident))))"
      by simp
    with True ne show ?thesis
      by (subst fallback_chain.simps) simp
  next
    case False
    then show ?thesis
      by (subst fallback_chain.simps) simp
  qed
qed

section \<open>Facts about the built-in languages\<close>

lemma first_registered_Some:
  "first_registered langs cs = Some l \<Longrightarrow> \<exists>c\<in>set cs. langs c = Some l"
  by (induction cs) (auto split: option.splits)

lemma lookup_in_table: "lookup langs ident = Some l \<Longrightarrow> \<exists>c. langs c = Some l"
  using first_registered_Some [of langs "fallback_chain ident" l]
  by (auto simp: lookup_first_registered)

lemma literal_closed:
  "(lid, l) \<in> set languages_literal \<Longrightarrow>
   PluralFunc l ops \<in> PluralCategories l \<and> PluralFunc l ops \<noteq> plural_Invalid \<and> ID l = lid"
  unfolding languages_literal_def builtin_def newSet_def
  by (auto simp: ar_PluralFunc_def ca_PluralFunc_def zh_PluralFunc_def cs_PluralFunc_def
      da_PluralFunc_def nl_PluralFunc_def en_PluralFunc_def fr_PluralFunc_def de_PluralFunc_def
      it_PluralFunc_def ja_PluralFunc_def lt_PluralFunc_def pt_PluralFunc_def
      pt_BR_PluralFunc_def es_PluralFunc_def Let_def split: if_splits)

lemma languages_closed:
  "languages lid = Some l \<Longrightarrow>
   PluralFunc l ops \<in> PluralCategories l \<and> PluralFunc l ops \<noteq> plural_Invalid \<and> ID l = lid"
  by (rule literal_closed) (simp add: languages_def map_of_SomeD)

section \<open>Facts about operand extraction\<close>

lemma digit_not_exp_mark: "is_digit c \<Longrightarrow> \<not> is_exp_mark c"
  by (auto simp: is_digit_def is_exp_mark_def)

lemma digit_not_sign: "is_digit c \<Longrightarrow> \<not> is_sign c"
  by (auto simp: is_digit_def is_sign_def)

lemma digit_not_point: "is_digit c \<Longrightarrow> c \<noteq> CHR ''.''"
  by (auto simp: is_digit_def)

lemma point_not_exp_mark: "\<not> is_exp_mark (CHR ''.'')"
  by (simp add: is_exp_mark_def)

lemma point_not_digit: "\<not> is_digit (CHR ''.'')"
  by (simp add: is_digit_def)

lemma point_not_sign: "\<not> is_sign (CHR ''.'')"
  by (simp add: is_sign_def)

lemmas point_simps = point_not_exp_mark point_not_digit point_not_sign

lemma sign_not_point: "is_sign c \<Longrightarrow> c \<noteq> CHR ''.''"
  by (auto simp: is_sign_def)

lemma wf_exp_digits_iff: "wf_exp_digits seen ds = (list_all is_digit ds \<and> (seen \<or> ds \<noteq> []))"
  by (induction ds arbitrary: seen) auto

lemma wf_exponent_iff: "wf_exponent es = (parse_exponent es \<noteq> None)"
  by (cases es) (auto simp: wf_exp_digits_iff Let_def digit_not_sign)

lemma wf_fraction_iff:
  "wf_fraction seen s =
     (list_all is_digit (takeWhile (\<lambda>c. \<not> is_exp_mark c) s)
      \<and> (seen \<or> takeWhile (\<lambda>c. \<not> is_exp_mark c) s \<noteq> [])
      \<and> (dropWhile (\<lambda>c. \<not> is_exp_mark c) s = []
         \<or> wf_exponent (drop 1 (dropWhile (\<lambda>c. \<not> is_exp_mark c) s))))"
  by (induction s arbitrary: seen) (auto simp: digit_not_exp_mark)

lemma wf_integer_iff:
  "wf_integer seen s =
     (list_all is_digit (takeWhile (\<lambda>c. c \<noteq> CHR ''.'') (takeWhile (\<lambda>c. \<not> is_exp_mark c) s))
      \<and> list_all is_digit
          (drop 1 (dropWhile (\<lambda>c. c \<noteq> CHR ''.'') (takeWhile (\<lambda>c. \<not> is_exp_mark c) s)))
      \<and> (seen \<or> takeWhile (\<lambda>c. c \<noteq> CHR ''.'') (takeWhile (\<lambda>c. \<not> is_exp_mark c) s) @
            drop 1 (dropWhile (\<lambda>c. c \<noteq> CHR ''.'') (takeWhile (\<lambda>c. \<not> is_exp_mark c) s)) \<noteq> [])
      \<and> (dropWhile (\<lambda>c. \<not> is_exp_mark c) s = []
         \<or> wf_exponent (drop 1 (dropWhile (\<lambda>c. \<not> is_exp_mark c) s))))"
proof (induction s arbitrary: seen)
  case Nil
  show ?case by simp
next
  case (Cons c cs)
  consider (digit) "is_digit c" | (point) "c = CHR ''.''" | (mark) "is_exp_mark c"
    | (other) "\<not> is_digit c" "c \<noteq> CHR ''.''" "\<not> is_exp_mark c"
    by blast
  then show ?case
  proof cases
    case digit
    then show ?thesis
      using Cons.IH [of True] by (simp add: digit_not_exp_mark digit_not_point)
  next
    case point
    have "\<not> is_digit (CHR ''.'')"
      by (simp add: is_digit_def)
    with point show ?thesis
      by (simp add: point_not_exp_mark wf_fraction_iff)
  next
    case mark
    then have "\<not> is_digit c" "c \<noteq> CHR ''.''"
      using digit_not_exp_mark point_not_exp_mark by auto
    with mark show ?thesis by simp
  next
    case other
    then show ?thesis by simp
  qed
qed

lemma parse_decimal_None_iff: "(parse_decimal s = None) = (\<not> well_formed s)"
  by (simp add: parse_decimal_def well_formed_def wf_integer_iff [of False] wf_exponent_iff Let_def
      split: option.splits)

lemma exp_digits_no_point: "list_all is_digit ds \<Longrightarrow> CHR ''.'' \<notin> set ds"
  by (induction ds) (auto simp: point_simps)

lemma wf_exponent_no_point: "wf_exponent es \<Longrightarrow> CHR ''.'' \<notin> set es"
  by (cases es) (auto simp: wf_exp_digits_iff point_simps split: if_splits dest: exp_digits_no_point)

lemma wf_fraction_no_point: "wf_fraction seen s \<Longrightarrow> CHR ''.'' \<notin> set s"
proof (induction s arbitrary: seen)
  case Nil
  show ?case by simp
next
  case (Cons c cs)
  then show ?case
    by (auto simp: point_simps split: if_splits dest: wf_exponent_no_point)
qed

lemma wf_integer_one_point: "wf_integer seen s \<Longrightarrow> count_list s (CHR ''.'') \<le> 1"
proof (induction s arbitrary: seen)
  case Nil
  show ?case by simp
next
  case (Cons c cs)
  then show ?case
    by (auto simp: point_simps count_list_0_iff split: if_splits
        dest: wf_exponent_no_point wf_fraction_no_point)
qed

lemma well_formed_one_point: "well_formed s \<Longrightarrow> count_list s (CHR ''.'') \<le> 1"
  by (cases s)
     (auto simp: well_formed_def point_simps count_list_0_iff split: if_splits
        dest: wf_integer_one_point wf_fraction_no_point)

lemma exp_digits_numeric: "list_all is_digit ds \<Longrightarrow> list_all numeric_char ds"
  by (induction ds) (auto simp: numeric_char_def)

lemma wf_exponent_numeric: "wf_exponent es \<Longrightarrow> list_all numeric_char es"
  by (cases es) (auto simp: wf_exp_digits_iff numeric_char_def split: if_splits dest: exp_digits_numeric)

lemma wf_fraction_numeric: "wf_fraction seen s \<Longrightarrow> list_all numeric_char s"
  by (induction s arbitrary: seen)
     (auto simp: numeric_char_def split: if_splits dest: wf_exponent_numeric)

lemma wf_integer_numeric: "wf_integer seen s \<Longrightarrow> list_all numeric_char s"
  by (induction s arbitrary: seen)
     (auto simp: numeric_char_def split: if_splits dest: wf_exponent_numeric wf_fraction_numeric)

lemma well_formed_numeric: "well_formed s \<Longrightarrow> list_all numeric_char s"
  by (cases s)
     (auto simp: well_formed_def numeric_char_def split: if_splits
        dest: wf_integer_numeric wf_fraction_numeric wf_exponent_numeric)

lemma well_formed_nonempty: "well_formed s \<Longrightarrow> s \<noteq> []"
  by (auto simp: well_formed_def)

lemma parse_decimal_digits:
  assumes "list_all is_digit ds" and "ds \<noteq> []"
  shows "parse_decimal ds = Some (ds, [])"
proof -
  from assms obtain c cs where ds: "ds = c # cs" and c: "is_digit c"
    by (cases ds) auto
  have body: "strip_sign ds = ds"
    using c by (simp add: ds digit_not_sign)
  have mant: "takeWhile (\<lambda>c. \<not> is_exp_mark c) ds = ds"
    using assms(1) by (simp add: takeWhile_eq_all_conv list_all_iff digit_not_exp_mark)
  have rest: "dropWhile (\<lambda>c. \<not> is_exp_mark c) ds = []"
    using assms(1) by (simp add: dropWhile_eq_Nil_conv list_all_iff digit_not_exp_mark)
  have ip: "takeWhile (\<lambda>c. c \<noteq> CHR ''.'') ds = ds"
    using assms(1) by (simp add: takeWhile_eq_all_conv list_all_iff digit_not_point)
  have fr: "dropWhile (\<lambda>c. c \<noteq> CHR ''.'') ds = []"
    using assms(1) by (simp add: dropWhile_eq_Nil_conv list_all_iff digit_not_point)
  have ex: "expand ds [] 0 = (ds, [])"
    using assms(2) by (simp add: expand_def Let_def)
  show ?thesis
    using assms by (simp add: parse_decimal_def body mant rest ip fr ex)
qed

lemma digit_char_digit: "d < 10 \<Longrightarrow> is_digit (digit_char d)"
  by (simp add: is_digit_def digit_char_def)

lemma digit_val_digit_char: "d < 10 \<Longrightarrow> digit_val (digit_char d) = d"
  by (simp add: digit_val_def digit_char_def)

lemma digits_of_nat_digits: "list_all is_digit (digits_of_nat n) \<and> digits_of_nat n \<noteq> []"
proof (induction n rule: digits_of_nat.induct)
  case (1 n)
  show ?case
  proof (cases "n < 10")
    case True
    then show ?thesis
      by (subst digits_of_nat.simps, subst (2) digits_of_nat.simps) (simp add: digit_char_digit)
  next
    case False
    with "1.IH" have "list_all is_digit (digits_of_nat (n div 10))"
      by simp
    with False show ?thesis
      by (subst digits_of_nat.simps, subst (2) digits_of_nat.simps) (simp add: digit_char_digit)
  qed
qed

lemma nat_of_digits_snoc: "nat_of_digits (ds @ [c]) = 10 * nat_of_digits ds + digit_val c"
  by (simp add: nat_of_digits_def)

lemma nat_of_digits_digits_of_nat: "nat_of_digits (digits_of_nat n) = n"
proof (induction n rule: digits_of_nat.induct)
  case (1 n)
  show ?case
  proof (cases "n < 10")
    case True
    then show ?thesis
      by (subst digits_of_nat.simps) (simp add: nat_of_digits_def digit_val_digit_char)
  next
    case False
    with "1.IH" have "nat_of_digits (digits_of_nat (n div 10)) = n div 10"
      by simp
    with False show ?thesis
      by (subst digits_of_nat.simps) (simp add: nat_of_digits_snoc digit_val_digit_char)
  qed
qed

lemma operands_of_no_fraction:
  "operands_of (ip, []) =
     \<lparr>ops_N = of_nat (nat_of_digits ip), ops_I = nat_of_digits ip,
      ops_V = 0, ops_W = 0, ops_F = 0, ops_T = 0\<rparr>"
  by (simp add: operands_of_def strip_trailing_zeros_def nat_of_digits_def)

lemma NewOperands_digits:
  "list_all is_digit ds \<Longrightarrow> ds \<noteq> [] \<Longrightarrow> NewOperands (NumStr ds) = Inr (operands_of (ds, []))"
  by (simp add: parse_decimal_digits)

lemma length_strip_trailing_zeros: "length (strip_trailing_zeros ds) \<le> length ds"
  using length_dropWhile_le [of "\<lambda>c. c = CHR ''0''" "rev ds"]
  by (simp add: strip_trailing_zeros_def)

section \<open>The claims\<close>

text \<open>
  C1. Registration is last-write-wins and an idempotent overwrite. For every locale,
  context, content and pair of translations, after \<open>AddTranslation\<close> has stored the first
  translation and then the second under the same locale, context and content, a Message
  with the returned id reads the second translation under that locale, at once and after
  any further calls that do not write that key again; the state is the very state that
  registering the second translation alone would have left (nothing of the first one
  remains); and registering the same entry twice leaves the same state as registering it
  once.
\<close>

theorem C1_last_write_wins:
  "Message_String
     (SetLocale locale
        (snd (AddTranslation msg_Id locale context content t2
           (snd (AddTranslation msg_Id locale context content t1 s)))))
     \<lparr>Message_id = fst (AddTranslation msg_Id locale context content t2
           (snd (AddTranslation msg_Id locale context content t1 s)))\<rparr> = t2
   \<and> (list_all (\<lambda>x. written_key msg_Id x \<noteq> Some (locale, msg_Id context content)) ops
       \<and> currentLocale
            (run msg_Id (snd (AddTranslation msg_Id locale context content t2
               (snd (AddTranslation msg_Id locale context content t1 s)))) ops) = locale
      \<longrightarrow> Message_String
            (run msg_Id (snd (AddTranslation msg_Id locale context content t2
               (snd (AddTranslation msg_Id locale context content t1 s)))) ops)
            \<lparr>Message_id = fst (AddTranslation msg_Id locale context content t2
               (snd (AddTranslation msg_Id locale context content t1 s)))\<rparr> = t2)
   \<and> snd (AddTranslation msg_Id locale context content t2
           (snd (AddTranslation msg_Id locale context content t1 s))) =
     snd (AddTranslation msg_Id locale context content t2 s)
   \<and> AddTranslation msg_Id locale context content t1
        (snd (AddTranslation msg_Id locale context content t1 s)) =
     AddTranslation msg_Id locale context content t1 s"
proof (intro conjI impI)
  let ?s2 = "snd (AddTranslation msg_Id locale context content t2
           (snd (AddTranslation msg_Id locale context content t1 s)))"
  let ?m = "\<lparr>Message_id = fst (AddTranslation msg_Id locale context content t2
           (snd (AddTranslation msg_Id locale context content t1 s)))\<rparr>"
  have stored: "entry (translations_tbl ?s2) locale (msg_Id context content) = Some t2"
    by (simp add: entry_AddTranslation)
  then have "entry (translations_tbl (SetLocale locale ?s2)) locale (msg_Id context content) = Some t2"
    by (simp add: SetLocale_def)
  then show "Message_String (SetLocale locale ?s2) ?m = t2"
    by (simp add: Message_String_def fst_AddTranslation SetLocale_def)
  {
    assume h: "list_all (\<lambda>x. written_key msg_Id x \<noteq> Some (locale, msg_Id context content)) ops
       \<and> currentLocale (run msg_Id ?s2 ops) = locale"
    then have "entry (translations_tbl (run msg_Id ?s2 ops)) locale (msg_Id context content) =
        entry (translations_tbl ?s2) locale (msg_Id context content)"
      by (simp add: entry_run_other)
    with stored h show "Message_String (run msg_Id ?s2 ops) ?m = t2"
      by (simp add: Message_String_def fst_AddTranslation)
  }
  show "?s2 = snd (AddTranslation msg_Id locale context content t2 s)"
    by (rule AddTranslation_twice)
  show "AddTranslation msg_Id locale context content t1
        (snd (AddTranslation msg_Id locale context content t1 s)) =
     AddTranslation msg_Id locale context content t1 s"
    by (rule prod_eqI) (simp_all add: fst_AddTranslation AddTranslation_twice)
qed

theorem C1_last_write_wins_witness:
  "Message_String
     (run sample_Id
        (snd (AddTranslation sample_Id ''fr'' ''ctx'' ''hello'' ''bonjour''
           (snd (AddTranslation sample_Id ''fr'' ''ctx'' ''hello'' ''salut'' init_state))))
        [OpAddTranslation ''de'' ''ctx'' ''hello'' ''hallo'', OpSetLocale ''fr''])
     \<lparr>Message_id = sample_Id ''ctx'' ''hello''\<rparr> = ''bonjour''"
proof -
  let ?ops = "[OpAddTranslation ''de'' ''ctx'' ''hello'' ''hallo'', OpSetLocale ''fr'']"
  let ?s2 = "snd (AddTranslation sample_Id ''fr'' ''ctx'' ''hello'' ''bonjour''
           (snd (AddTranslation sample_Id ''fr'' ''ctx'' ''hello'' ''salut'' init_state)))"
  have keys: "list_all (\<lambda>x. written_key sample_Id x \<noteq> Some (''fr'', sample_Id ''ctx'' ''hello'')) ?ops"
    by simp
  have cur: "currentLocale (run sample_Id ?s2 ?ops) = ''fr''"
    by (simp add: run_def SetLocale_def)
  have "Message_String (run sample_Id ?s2 ?ops)
      \<lparr>Message_id = fst (AddTranslation sample_Id ''fr'' ''ctx'' ''hello'' ''bonjour''
         (snd (AddTranslation sample_Id ''fr'' ''ctx'' ''hello'' ''salut'' init_state)))\<rparr> = ''bonjour''"
    using C1_last_write_wins [of "''fr''" sample_Id "''ctx''" "''hello''" "''bonjour''" "''salut''"
        init_state ?ops] keys cur
    by blast
  then show ?thesis
    by (simp only: fst_AddTranslation)
qed

text \<open>
  C2. The claim reads: when the current locale has no translation for the message's id,
  \<open>Message.String\<close> reports the miss and does not put the default locale's translation
  in its place. The code does the opposite, as its own comment says (the message is
  returned untranslated). The example: after \<open>NewMessage("hello", "ctx")\<close> and
  \<open>SetLocale("fr")\<close> the locale "fr" has no entry for the message, the default locale
  holds "hello", and \<open>String\<close> returns "hello", the very string a registered
  translation "hello" would give (whatever id \<open>msg.Id\<close> gives the message, see
  \<open>String_after_NewMessage_SetLocale\<close>).
\<close>

theorem C2_counterexample:
  "entry (translations_tbl
            (run sample_Id init_state [OpNewMessage ''hello'' ''ctx'', OpSetLocale ''fr'']))
         (currentLocale
            (run sample_Id init_state [OpNewMessage ''hello'' ''ctx'', OpSetLocale ''fr'']))
         (Message_id (fst (NewMessage sample_Id ''hello'' ''ctx'' init_state))) = None
   \<and> entry (translations_tbl
            (run sample_Id init_state [OpNewMessage ''hello'' ''ctx'', OpSetLocale ''fr'']))
         defaultLocale
         (Message_id (fst (NewMessage sample_Id ''hello'' ''ctx'' init_state))) = Some ''hello''
   \<and> Message_String
         (run sample_Id init_state [OpNewMessage ''hello'' ''ctx'', OpSetLocale ''fr''])
         (fst (NewMessage sample_Id ''hello'' ''ctx'' init_state)) = ''hello''"
  using String_after_NewMessage_SetLocale [of "''fr''" sample_Id "''hello''" "''ctx''"]
  by (simp add: run_def defaultLocale_def SetLocale_def fst_NewMessage translations_NewMessage
      entry_AddTranslation)

text \<open>
  C2, amended. When the current locale has no translation registered for the message's
  id, \<open>Message.String\<close> returns the default locale's translation for that id, and the
  empty string when the default locale has none either; its result is a plain string,
  with nothing that tells a miss from a hit.
\<close>

theorem C2_falls_back_to_default:
  "entry (translations_tbl s) (currentLocale s) (Message_id m) = None \<Longrightarrow>
   Message_String s m =
     (case entry (translations_tbl s) defaultLocale (Message_id m) of
        Some t \<Rightarrow> t | None \<Rightarrow> [])"
  by (simp add: Message_String_def)

theorem C2_falls_back_to_default_witness:
  "entry (translations_tbl (SetLocale ''fr'' (snd (NewMessage sample_Id ''hello'' ''ctx'' init_state))))
     (currentLocale (SetLocale ''fr'' (snd (NewMessage sample_Id ''hello'' ''ctx'' init_state))))
     (Message_id (fst (NewMessage sample_Id ''hello'' ''ctx'' init_state))) = None
   \<and> Message_String (SetLocale ''fr'' (snd (NewMessage sample_Id ''hello'' ''ctx'' init_state)))
       (fst (NewMessage sample_Id ''hello'' ''ctx'' init_state)) = ''hello''"
proof -
  let ?s = "SetLocale ''fr'' (snd (NewMessage sample_Id ''hello'' ''ctx'' init_state))"
  let ?m = "fst (NewMessage sample_Id ''hello'' ''ctx'' init_state)"
  have cur: "currentLocale ?s = ''fr''"
    by (simp add: SetLocale_def)
  have miss: "entry (translations_tbl ?s) (currentLocale ?s) (Message_id ?m) = None"
    using String_after_NewMessage_SetLocale [of "''fr''" sample_Id "''hello''" "''ctx''"]
    by (simp add: cur defaultLocale_def)
  have dflt: "entry (translations_tbl ?s) defaultLocale (Message_id ?m) = Some ''hello''"
    by (simp add: SetLocale_def fst_NewMessage translations_NewMessage entry_AddTranslation)
  show ?thesis
    using C2_falls_back_to_default [OF miss] miss dflt by simp
qed

text \<open>
  C3. The table of translations has one value per (locale, id) key (it is a map, read
  through \<open>entry\<close>), and only registration writes it. For every sequence of calls:
  a sequence made of \<open>SetLocale\<close> and \<open>Message.String\<close> calls alone leaves the whole table
  as it was; \<open>SetLocale\<close> alone does, too; what \<open>NewMessage\<close> does to the table is what
  its call of \<open>AddTranslation\<close> under the default locale does; and the last write wins:
  after any calls, a call that writes the key (l, i), and then any calls that do not write
  that key, the table holds at (l, i) the value of that last write.
\<close>

theorem C3_registry_written_only_by_registration:
  "(list_all (\<lambda>x. case x of OpSetLocale _ \<Rightarrow> True | OpString _ \<Rightarrow> True | _ \<Rightarrow> False) ops \<longrightarrow>
      translations_tbl (run msg_Id s ops) = translations_tbl s)
   \<and> translations_tbl (SetLocale locale s) = translations_tbl s
   \<and> translations_tbl (snd (NewMessage msg_Id content context s)) =
       translations_tbl (snd (AddTranslation msg_Id defaultLocale context content content s))
   \<and> (written_key msg_Id x = Some (l, i) \<and>
        list_all (\<lambda>y. written_key msg_Id y \<noteq> Some (l, i)) post \<longrightarrow>
      entry (translations_tbl (run msg_Id s (pre @ [x] @ post))) l i = Some (written_value x))"
proof (intro conjI impI)
  assume a: "list_all (\<lambda>x. case x of OpSetLocale _ \<Rightarrow> True | OpString _ \<Rightarrow> True | _ \<Rightarrow> False) ops"
  have "list_all (\<lambda>x. written_key msg_Id x = None) ops"
    using a by (induction ops) (auto split: op.splits)
  then show "translations_tbl (run msg_Id s ops) = translations_tbl s"
    by (rule translations_run_no_write)
next
  show "translations_tbl (SetLocale locale s) = translations_tbl s"
    by (simp add: SetLocale_def)
next
  show "translations_tbl (snd (NewMessage msg_Id content context s)) =
       translations_tbl (snd (AddTranslation msg_Id defaultLocale context content content s))"
    by (rule translations_NewMessage)
next
  assume b: "written_key msg_Id x = Some (l, i) \<and>
        list_all (\<lambda>y. written_key msg_Id y \<noteq> Some (l, i)) post"
  let ?s1 = "run msg_Id s pre"
  have split: "run msg_Id s (pre @ [x] @ post) = run msg_Id (exec_op msg_Id ?s1 x) post"
    by (simp add: run_def)
  have "entry (translations_tbl (exec_op msg_Id ?s1 x)) l i = Some (written_value x)"
    using b by (cases x) (auto simp: entry_AddTranslation translations_NewMessage)
  then show "entry (translations_tbl (run msg_Id s (pre @ [x] @ post))) l i = Some (written_value x)"
    using b unfolding split by (simp add: entry_run_other)
qed

theorem C3_registry_written_only_by_registration_witness:
  "translations_tbl (run sample_Id init_state [OpSetLocale ''fr'', OpString \<lparr>Message_id = ''m''\<rparr>]) =
     translations_tbl init_state
   \<and> entry (translations_tbl (run sample_Id init_state
        ([OpAddTranslation ''fr'' ''ctx'' ''hello'' ''salut''] @
         [OpAddTranslation ''fr'' ''ctx'' ''hello'' ''bonjour''] @
         [OpSetLocale ''fr'', OpAddTranslation ''de'' ''ctx'' ''hello'' ''hallo''])))
       ''fr'' (sample_Id ''ctx'' ''hello'') = Some ''bonjour''"
  using C3_registry_written_only_by_registration
          [of "[OpSetLocale ''fr'', OpString \<lparr>Message_id = ''m''\<rparr>]" sample_Id init_state
              "''fr''" "''hello''" "''ctx''"
              "OpAddTranslation ''fr'' ''ctx'' ''hello'' ''bonjour''" "''fr''"
              "sample_Id ''ctx'' ''hello''"
              "[OpSetLocale ''fr'', OpAddTranslation ''de'' ''ctx'' ''hello'' ''hallo'']"
              "[OpAddTranslation ''fr'' ''ctx'' ''hello'' ''salut'']"]
  by simp

text \<open>
  C4. The claim reads: for every identifier, \<open>lookup\<close> tries an exact match on the
  normalised identifier and, on a miss, the identifier cut from its last dash onward,
  again and again, and fails when no dash is left and nothing has matched; this is
  \<open>lookup_spec\<close>. The code calls \<open>lookup\<close> itself on the cut identifier and so trims
  and normalises it again, which the claim does not say. The identifier "en -US" shows
  the difference: its truncations are "en -US" and "en " (with the space), neither of
  which is registered, so that the lookup of the claim finds nothing; the code trims
  "en " to "en" and returns the English language.
\<close>

theorem C4_counterexample:
  "map_option ID (lookup languages ''en -US'') = Some ''en''
   \<and> truncations (normalized ''en -US'') = [''en -US'', ''en '']
   \<and> lookup_spec languages ''en -US'' = None"
proof (intro conjI)
  have c: "fallback_chain ''en -US'' = [''en -US'', ''en'']"
    by code_simp
  have "map_option ID (first_registered languages [''en -US'', ''en'']) = Some ''en''"
    by (simp add: languages_def languages_literal_def builtin_def)
  then show "map_option ID (lookup languages ''en -US'') = Some ''en''"
    by (simp only: lookup_first_registered c)
next
  show t: "truncations (normalized ''en -US'') = [''en -US'', ''en '']"
    by code_simp
  have "first_registered languages [''en -US'', ''en ''] = None"
    by (simp add: languages_def languages_literal_def)
  then show "lookup_spec languages ''en -US'' = None"
    by (simp only: lookup_spec_def t)
qed

text \<open>
  C4, amended. Language lookup falls back by truncation, normalising again at each step.
  For every registry and identifier, \<open>lookup\<close> returns the first registered language
  among the candidates it tries, in order: the normalised identifier first (the
  white-space runes of the Unicode table trimmed from both ends, underscores turned into
  dashes, compared exactly and with case), then, on each miss, the identifier cut from its
  last dash onward and normalised again. Whenever trimming changes none of the
  truncations of the normalised identifier (when no truncation ends or starts with white
  space; in particular when the trimmed identifier is printable ASCII with no space in
  it) the candidates are these truncations, and \<open>lookup\<close> is the lookup of the spec's
  words: for "pt-BR-nonstandard" it tries the identifier itself, "pt-BR", then "pt". The
  result is absent (\<open>None\<close>) exactly when none of the candidates is registered, the last
  of them having no dash left.
\<close>

theorem C4_lookup_falls_back_by_truncation:
  "lookup langs ident = first_registered langs (fallback_chain ident)
   \<and> (langs (normalized ident) = Some l \<longrightarrow> lookup langs ident = Some l)
   \<and> (list_all (\<lambda>t. trim_spec t = t) (truncations (normalized ident)) \<longrightarrow>
        lookup langs ident = lookup_spec langs ident)
   \<and> (list_all graphic (trim_spec ident) \<longrightarrow> lookup langs ident = lookup_spec langs ident)
   \<and> (lookup langs ident = None) = (\<forall>c\<in>set (fallback_chain ident). langs c = None)
   \<and> CHR ''-'' \<notin> set (last (fallback_chain ident))"
proof (intro conjI impI)
  show "lookup langs ident = first_registered langs (fallback_chain ident)"
    by (rule lookup_first_registered)
next
  assume "langs (normalized ident) = Some l"
  then show "lookup langs ident = Some l"
    by (subst lookup_step) simp
next
  assume "list_all (\<lambda>t. trim_spec t = t) (truncations (normalized ident))"
  then show "lookup langs ident = lookup_spec langs ident"
    by (simp add: lookup_first_registered fallback_chain_truncations lookup_spec_def)
next
  assume "list_all graphic (trim_spec ident)"
  then have "list_all graphic (normalized ident)"
    by (rule graphic_normalized)
  then have "list_all (\<lambda>t. trim_spec t = t) (truncations (normalized ident))"
    by (rule truncations_graphic)
  then show "lookup langs ident = lookup_spec langs ident"
    by (simp add: lookup_first_registered fallback_chain_truncations lookup_spec_def)
next
  show "(lookup langs ident = None) = (\<forall>c\<in>set (fallback_chain ident). langs c = None)"
    by (simp add: lookup_first_registered first_registered_None)
next
  show "CHR ''-'' \<notin> set (last (fallback_chain ident))"
    by (rule last_fallback_chain)
qed

theorem C4_lookup_falls_back_by_truncation_witness:
  "normalized ([CHR 0x20, CHR 0xC2, CHR 0xA0] @ ''pt_BR-nonstandard'' @
       [CHR 0xE2, CHR 0x80, CHR 0x8A, CHR 0x0A]) = ''pt-BR-nonstandard''
   \<and> truncations ''pt-BR-nonstandard'' = [''pt-BR-nonstandard'', ''pt-BR'', ''pt'']
   \<and> map_option ID (lookup languages ([CHR 0x20, CHR 0xC2, CHR 0xA0] @ ''pt_BR-nonstandard'' @
       [CHR 0xE2, CHR 0x80, CHR 0x8A, CHR 0x0A])) = Some ''pt-BR''
   \<and> map_option ID (lookup (languages(''pt-BR'' := None))
       ([CHR 0x20, CHR 0xC2, CHR 0xA0] @ ''pt_BR-nonstandard'' @
        [CHR 0xE2, CHR 0x80, CHR 0x8A, CHR 0x0A])) = Some ''pt''
   \<and> map_option ID (lookup languages ''pt '') = Some ''pt''
   \<and> lookup languages ''xx-yy-zz'' = None"
proof -
  let ?x = "[CHR 0x20, CHR 0xC2, CHR 0xA0] @ ''pt_BR-nonstandard'' @
       [CHR 0xE2, CHR 0x80, CHR 0x8A, CHR 0x0A]"
  have n: "normalized ?x = ''pt-BR-nonstandard''"
    by code_simp
  have t: "truncations ''pt-BR-nonstandard'' = [''pt-BR-nonstandard'', ''pt-BR'', ''pt'']"
    by code_simp
  have g: "list_all graphic (trim_spec ?x)"
    by code_simp
  have r1: "map_option ID (first_registered languages [''pt-BR-nonstandard'', ''pt-BR'', ''pt'']) =
      Some ''pt-BR''"
    by (simp add: languages_def languages_literal_def builtin_def)
  have r2: "map_option ID (first_registered (languages(''pt-BR'' := None))
      [''pt-BR-nonstandard'', ''pt-BR'', ''pt'']) = Some ''pt''"
    by (simp add: languages_def languages_literal_def builtin_def)
  have a: "lookup languages ?x = lookup_spec languages ?x"
    using C4_lookup_falls_back_by_truncation [of languages ?x] g by blast
  have b: "lookup (languages(''pt-BR'' := None)) ?x = lookup_spec (languages(''pt-BR'' := None)) ?x"
    using C4_lookup_falls_back_by_truncation [of "languages(''pt-BR'' := None)" ?x] g by blast
  have a': "map_option ID (lookup languages ?x) = Some ''pt-BR''"
    using r1 by (simp only: a lookup_spec_def n t)
  have b': "map_option ID (lookup (languages(''pt-BR'' := None)) ?x) = Some ''pt''"
    using r2 by (simp only: b lookup_spec_def n t)
  have np: "normalized ''pt '' = ''pt''"
    by code_simp
  have "map_option ID (languages ''pt'') = Some ''pt''"
    by (simp add: languages_def languages_literal_def builtin_def)
  then obtain l where l: "languages (normalized ''pt '') = Some l" and il: "ID l = ''pt''"
    using np by auto
  have "lookup languages ''pt '' = Some l"
    using C4_lookup_falls_back_by_truncation [of languages "''pt ''" l] l by blast
  with il have c: "map_option ID (lookup languages ''pt '') = Some ''pt''"
    by simp
  have fc: "fallback_chain ''xx-yy-zz'' = [''xx-yy-zz'', ''xx-yy'', ''xx'']"
    by code_simp
  have "\<forall>c\<in>set [''xx-yy-zz'', ''xx-yy'', ''xx'']. languages c = None"
    by (simp add: languages_def languages_literal_def)
  then have "\<forall>c\<in>set (fallback_chain ''xx-yy-zz''). languages c = None"
    by (simp only: fc)
  then have d: "lookup languages ''xx-yy-zz'' = None"
    using C4_lookup_falls_back_by_truncation [of languages "''xx-yy-zz''"] by blast
  show ?thesis
    using n t a' b' c d by (intro conjI)
qed

text \<open>
  C5. The claim reads: for every registered language and every operand set the rule
  function returns a category that the language declares, or \<open>other\<close>. \<open>Register\<close>
  stores any Language value as it is, so the claim fails for a registered language whose
  rule function and declared set disagree: after \<open>Register(mislabelled)\<close> the identifier
  "xx" resolves to a language that declares \<open>other\<close> alone, and whose rule function and
  \<open>PluralCategory\<close> return \<open>one\<close> for the number 1.
\<close>

theorem C5_counterexample:
  "lookup (Register mislabelled languages) ''xx'' = Some mislabelled
   \<and> PluralFunc mislabelled
        \<lparr>ops_N = 1, ops_I = 1, ops_V = 0, ops_W = 0, ops_F = 0, ops_T = 0\<rparr> = plural_One
   \<and> PluralCategory NewOperands mislabelled (NumInt 1) = Inr plural_One
   \<and> plural_One \<notin> PluralCategories mislabelled \<union> {plural_Other}"
proof (intro conjI)
  have n: "normalized ''xx'' = ''xx''"
    by code_simp
  have "Register mislabelled languages ''xx'' = Some mislabelled"
    by (simp add: Register_def mislabelled_def)
  then show "lookup (Register mislabelled languages) ''xx'' = Some mislabelled"
    by (subst lookup_step) (simp add: n)
next
  show "PluralFunc mislabelled
        \<lparr>ops_N = 1, ops_I = 1, ops_V = 0, ops_W = 0, ops_F = 0, ops_T = 0\<rparr> = plural_One"
    by (simp add: mislabelled_def)
next
  show "PluralCategory NewOperands mislabelled (NumInt 1) = Inr plural_One"
    by (simp add: PluralCategory_def mislabelled_def)
next
  show "plural_One \<notin> PluralCategories mislabelled \<union> {plural_Other}"
    by (simp add: mislabelled_def newSet_def)
qed

text \<open>
  C5, amended. Rule evaluation is total and closed over the declared categories for the
  languages of the built-in table: for every language that the table holds under some
  identifier, or that \<open>lookup\<close> finds in the table, and for every operand set, the rule
  function returns one category, a member of the language's declared set (and never
  \<open>Invalid\<close>); \<open>PluralCategory\<close> returns that category whenever the operands can be
  extracted, and the extraction's error otherwise. Nothing is claimed of a language
  added through \<open>Register\<close>.
\<close>

theorem C5_builtin_rules_closed:
  "languages lid = Some l \<or> lookup languages ident = Some l \<Longrightarrow>
   PluralFunc l ops \<in> PluralCategories l \<union> {plural_Other}
   \<and> PluralFunc l ops \<in> PluralCategories l
   \<and> PluralFunc l ops \<noteq> plural_Invalid
   \<and> (newOperands number = Inr ops \<longrightarrow>
        PluralCategory newOperands l number = Inr (PluralFunc l ops))
   \<and> (newOperands number = Inl e \<longrightarrow> PluralCategory newOperands l number = Inl e)
   \<and> (PluralCategory newOperands l number = Inr c \<longrightarrow> c \<in> PluralCategories l \<union> {plural_Other})"
proof -
  assume "languages lid = Some l \<or> lookup languages ident = Some l"
  then obtain k where k: "languages k = Some l"
    using lookup_in_table [of languages ident l] by auto
  have closed: "PluralFunc l x \<in> PluralCategories l \<and> PluralFunc l x \<noteq> plural_Invalid" for x
    using languages_closed [OF k, of x] by simp
  have "PluralCategory newOperands l number = Inr c \<longrightarrow> c \<in> PluralCategories l \<union> {plural_Other}"
    using closed by (auto simp: PluralCategory_def split: sum.splits)
  with closed [of ops] show ?thesis
    by (simp add: PluralCategory_def)
qed

theorem C5_builtin_rules_closed_witness:
  "languages ''ar'' =
     Some (builtin ''ar''
       [plural_Zero, plural_One, plural_Two, plural_Few, plural_Many, plural_Other] ar_PluralFunc)
   \<and> PluralCategory NewOperands (builtin ''ar''
       [plural_Zero, plural_One, plural_Two, plural_Few, plural_Many, plural_Other] ar_PluralFunc)
       (NumStr ''103'') = Inr plural_Few
   \<and> plural_Few \<in> PluralCategories (builtin ''ar''
       [plural_Zero, plural_One, plural_Two, plural_Few, plural_Many, plural_Other] ar_PluralFunc)
       \<union> {plural_Other}"
proof -
  let ?ar = "builtin ''ar''
       [plural_Zero, plural_One, plural_Two, plural_Few, plural_Many, plural_Other] ar_PluralFunc"
  have t: "languages ''ar'' = Some ?ar"
    by (simp add: languages_def languages_literal_def)
  have o: "NewOperands (NumStr ''103'') =
      Inr \<lparr>ops_N = 103, ops_I = 103, ops_V = 0, ops_W = 0, ops_F = 0, ops_T = 0\<rparr>"
    by code_simp
  have f: "ar_PluralFunc \<lparr>ops_N = 103, ops_I = 103, ops_V = 0, ops_W = 0, ops_F = 0, ops_T = 0\<rparr> =
      plural_Few"
    by (simp add: ar_PluralFunc_def)
  have c: "PluralCategory NewOperands ?ar (NumStr ''103'') = Inr plural_Few"
    unfolding PluralCategory_def o by (simp add: f builtin_def)
  have "plural_Few \<in> PluralCategories ?ar \<union> {plural_Other}"
    using C5_builtin_rules_closed [of "''ar''" ?ar "''ar''" _ NewOperands "NumStr ''103''" _ plural_Few]
      t c
    by blast
  with t c show ?thesis by simp
qed

text \<open>
  C6. Operand extraction is sensitive to trailing zeros of a decimal string. "2.50"
  yields v=2, w=1, f=50, t=5; "2.5" yields v=1, w=1, f=5, t=5; "2" yields v=0, w=0, f=0,
  t=0. For every string that normalises to integer digits \<open>ip\<close> and fraction digits
  \<open>fp\<close>, v is the length of \<open>fp\<close> and w the length of \<open>fp\<close> with its trailing zeros
  stripped (so w is at most v), f and t being the values of the two digit strings; an
  input with no fraction digits, an integer or a run of digits among them, yields v=0,
  w=0, f=0, t=0.
\<close>

theorem C6_trailing_zero_sensitive:
  "NewOperands (NumStr ''2.50'') =
     Inr \<lparr>ops_N = 5 / 2, ops_I = 2, ops_V = 2, ops_W = 1, ops_F = 50, ops_T = 5\<rparr>
   \<and> NewOperands (NumStr ''2.5'') =
     Inr \<lparr>ops_N = 5 / 2, ops_I = 2, ops_V = 1, ops_W = 1, ops_F = 5, ops_T = 5\<rparr>
   \<and> NewOperands (NumStr ''2'') =
     Inr \<lparr>ops_N = 2, ops_I = 2, ops_V = 0, ops_W = 0, ops_F = 0, ops_T = 0\<rparr>
   \<and> (parse_decimal s = Some (ip, fp) \<longrightarrow>
        NewOperands (NumStr s) = Inr (operands_of (ip, fp))
        \<and> ops_V (operands_of (ip, fp)) = length fp
        \<and> ops_W (operands_of (ip, fp)) = length (strip_trailing_zeros fp)
        \<and> ops_W (operands_of (ip, fp)) \<le> ops_V (operands_of (ip, fp))
        \<and> ops_F (operands_of (ip, fp)) = nat_of_digits fp
        \<and> ops_T (operands_of (ip, fp)) = nat_of_digits (strip_trailing_zeros fp))
   \<and> (parse_decimal s = Some (ip, []) \<longrightarrow>
        NewOperands (NumStr s) =
          Inr \<lparr>ops_N = of_nat (nat_of_digits ip), ops_I = nat_of_digits ip,
               ops_V = 0, ops_W = 0, ops_F = 0, ops_T = 0\<rparr>)
   \<and> (list_all is_digit ds \<and> ds \<noteq> [] \<longrightarrow>
        NewOperands (NumStr ds) =
          Inr \<lparr>ops_N = of_nat (nat_of_digits ds), ops_I = nat_of_digits ds,
               ops_V = 0, ops_W = 0, ops_F = 0, ops_T = 0\<rparr>)
   \<and> NewOperands (NumInt k) =
        Inr \<lparr>ops_N = of_nat (nat \<bar>k\<bar>), ops_I = nat \<bar>k\<bar>,
             ops_V = 0, ops_W = 0, ops_F = 0, ops_T = 0\<rparr>"
proof (intro conjI impI)
  show "NewOperands (NumStr ''2.50'') =
     Inr \<lparr>ops_N = 5 / 2, ops_I = 2, ops_V = 2, ops_W = 1, ops_F = 50, ops_T = 5\<rparr>"
    by code_simp
next
  show "NewOperands (NumStr ''2.5'') =
     Inr \<lparr>ops_N = 5 / 2, ops_I = 2, ops_V = 1, ops_W = 1, ops_F = 5, ops_T = 5\<rparr>"
    by code_simp
next
  show "NewOperands (NumStr ''2'') =
     Inr \<lparr>ops_N = 2, ops_I = 2, ops_V = 0, ops_W = 0, ops_F = 0, ops_T = 0\<rparr>"
    by code_simp
next
  assume p: "parse_decimal s = Some (ip, fp)"
  show "NewOperands (NumStr s) = Inr (operands_of (ip, fp))"
    by (simp add: p)
  show "ops_V (operands_of (ip, fp)) = length fp"
    and "ops_W (operands_of (ip, fp)) = length (strip_trailing_zeros fp)"
    and "ops_F (operands_of (ip, fp)) = nat_of_digits fp"
    and "ops_T (operands_of (ip, fp)) = nat_of_digits (strip_trailing_zeros fp)"
    by (simp_all add: operands_of_def)
  show "ops_W (operands_of (ip, fp)) \<le> ops_V (operands_of (ip, fp))"
    by (simp add: operands_of_def length_strip_trailing_zeros)
next
  assume "parse_decimal s = Some (ip, [])"
  then show "NewOperands (NumStr s) =
          Inr \<lparr>ops_N = of_nat (nat_of_digits ip), ops_I = nat_of_digits ip,
               ops_V = 0, ops_W = 0, ops_F = 0, ops_T = 0\<rparr>"
    by (simp add: operands_of_no_fraction)
next
  assume "list_all is_digit ds \<and> ds \<noteq> []"
  then have "NewOperands (NumStr ds) = Inr (operands_of (ds, []))"
    using NewOperands_digits [of ds] by blast
  then show "NewOperands (NumStr ds) =
          Inr \<lparr>ops_N = of_nat (nat_of_digits ds), ops_I = nat_of_digits ds,
               ops_V = 0, ops_W = 0, ops_F = 0, ops_T = 0\<rparr>"
    by (simp add: operands_of_no_fraction)
next
  show "NewOperands (NumInt k) =
        Inr \<lparr>ops_N = of_nat (nat \<bar>k\<bar>), ops_I = nat \<bar>k\<bar>,
             ops_V = 0, ops_W = 0, ops_F = 0, ops_T = 0\<rparr>"
    by (simp add: operands_of_no_fraction nat_of_digits_digits_of_nat)
qed

theorem C6_trailing_zero_sensitive_witness:
  "parse_decimal ''-12.3400'' = Some (''12'', ''3400'')
   \<and> ops_V (operands_of (''12'', ''3400'')) = 4
   \<and> ops_W (operands_of (''12'', ''3400'')) = 2
   \<and> ops_F (operands_of (''12'', ''3400'')) = 3400
   \<and> ops_T (operands_of (''12'', ''3400'')) = 34
   \<and> NewOperands (NumStr ''007'') =
       Inr \<lparr>ops_N = 7, ops_I = 7, ops_V = 0, ops_W = 0, ops_F = 0, ops_T = 0\<rparr>"
proof -
  have p: "parse_decimal ''-12.3400'' = Some (''12'', ''3400'')"
    by code_simp
  have s: "strip_trailing_zeros ''3400'' = ''34''"
    by code_simp
  have f: "nat_of_digits ''3400'' = 3400" and t: "nat_of_digits ''34'' = 34"
    by code_simp+
  have d: "list_all is_digit ''007'' \<and> ''007'' \<noteq> []"
    by code_simp
  have n: "nat_of_digits ''007'' = 7"
    by code_simp
  show ?thesis
    using C6_trailing_zero_sensitive [of "''-12.3400''" "''12''" "''3400''" "''007''" 0] p s f t d n
    by simp
qed

text \<open>
  C7. Malformed numeric input is rejected. For every string that is not a well-formed
  number, operand extraction fails with \<open>InvalidNumber\<close>, and so does \<open>PluralCategory\<close>
  for every language: no operands and no category are produced. The empty string, every
  string with two or more decimal points and every string with a byte that is no digit,
  sign, decimal point or exponent mark are not well formed. Only malformed strings are
  rejected.
\<close>

theorem C7_malformed_rejected:
  "(\<not> well_formed s \<longrightarrow>
      NewOperands (NumStr s) = Inl InvalidNumber
      \<and> PluralCategory NewOperands l (NumStr s) = Inl InvalidNumber)
   \<and> (s = [] \<or> 2 \<le> count_list s (CHR ''.'') \<or> \<not> list_all numeric_char s \<longrightarrow> \<not> well_formed s)
   \<and> (NewOperands (NumStr s) = Inl InvalidNumber) = (\<not> well_formed s)"
proof (intro conjI impI)
  assume "\<not> well_formed s"
  then have "parse_decimal s = None"
    by (simp add: parse_decimal_None_iff)
  then show "NewOperands (NumStr s) = Inl InvalidNumber"
    and "PluralCategory NewOperands l (NumStr s) = Inl InvalidNumber"
    by (simp_all add: PluralCategory_def)
next
  assume "s = [] \<or> 2 \<le> count_list s (CHR ''.'') \<or> \<not> list_all numeric_char s"
  then show "\<not> well_formed s"
    using well_formed_nonempty [of s] well_formed_one_point [of s] well_formed_numeric [of s]
    by auto
next
  show "(NewOperands (NumStr s) = Inl InvalidNumber) = (\<not> well_formed s)"
    using parse_decimal_None_iff [of s] by (cases "parse_decimal s") auto
qed

theorem C7_malformed_rejected_witness:
  "2 \<le> count_list ''12.3.4'' (CHR ''.'')
   \<and> \<not> well_formed ''12.3.4''
   \<and> NewOperands (NumStr ''12.3.4'') = Inl InvalidNumber
   \<and> PluralCategory NewOperands (builtin ''en'' [plural_One, plural_Other] en_PluralFunc)
       (NumStr ''12.3.4'') = Inl InvalidNumber"
proof -
  have c: "2 \<le> count_list ''12.3.4'' (CHR ''.'')"
    by simp
  show ?thesis
    using C7_malformed_rejected
        [of "''12.3.4''" "builtin ''en'' [plural_One, plural_Other] en_PluralFunc"] c
    by blast
qed

text \<open>
  C8. Operand derivation is stable across the input's tags. The integer 1 and the
  decimal string "1" yield the same operand set, i=1, v=0, w=0, f=0, t=0 (and n=1); and
  every integer yields the operand set of the decimal string of its absolute value.
\<close>

theorem C8_representation_stable:
  "NewOperands (NumInt 1) = NewOperands (NumStr ''1'')
   \<and> NewOperands (NumInt 1) =
       Inr \<lparr>ops_N = 1, ops_I = 1, ops_V = 0, ops_W = 0, ops_F = 0, ops_T = 0\<rparr>
   \<and> NewOperands (NumStr ''1'') =
       Inr \<lparr>ops_N = 1, ops_I = 1, ops_V = 0, ops_W = 0, ops_F = 0, ops_T = 0\<rparr>
   \<and> NewOperands (NumInt k) = NewOperands (NumStr (digits_of_nat (nat \<bar>k\<bar>)))"
proof -
  have a: "NewOperands (NumInt 1) =
       Inr \<lparr>ops_N = 1, ops_I = 1, ops_V = 0, ops_W = 0, ops_F = 0, ops_T = 0\<rparr>"
    by code_simp
  have b: "NewOperands (NumStr ''1'') =
       Inr \<lparr>ops_N = 1, ops_I = 1, ops_V = 0, ops_W = 0, ops_F = 0, ops_T = 0\<rparr>"
    by code_simp
  have "NewOperands (NumStr (digits_of_nat (nat \<bar>k\<bar>))) =
      Inr (operands_of (digits_of_nat (nat \<bar>k\<bar>), []))"
    using digits_of_nat_digits [of "nat \<bar>k\<bar>"] NewOperands_digits [of "digits_of_nat (nat \<bar>k\<bar>)"]
    by blast
  then have c: "NewOperands (NumInt k) = NewOperands (NumStr (digits_of_nat (nat \<bar>k\<bar>)))"
    by simp
  show ?thesis
    using a b c by simp
qed

text \<open>
  C9. The claim reads: a Message made by \<open>NewMessage(content, context)\<close> returns its
  content from \<open>String\<close> whenever the current locale has no translation for its id. It
  fails once the default locale's entry for that id has been overwritten, since the last
  write wins: after \<open>NewMessage("hello", "ctx")\<close>,
  \<open>AddTranslation("", "ctx", "hello", "bye")\<close> and \<open>SetLocale("fr")\<close>, the locale "fr" has
  no translation for the message, and \<open>String\<close> returns "bye" (whatever id \<open>msg.Id\<close>
  gives the message, see \<open>String_after_default_overwritten\<close>).
\<close>

theorem C9_counterexample:
  "entry (translations_tbl
            (run sample_Id init_state
               [OpNewMessage ''hello'' ''ctx'', OpAddTranslation [] ''ctx'' ''hello'' ''bye'',
                OpSetLocale ''fr'']))
         (currentLocale
            (run sample_Id init_state
               [OpNewMessage ''hello'' ''ctx'', OpAddTranslation [] ''ctx'' ''hello'' ''bye'',
                OpSetLocale ''fr'']))
         (Message_id (fst (NewMessage sample_Id ''hello'' ''ctx'' init_state))) = None
   \<and> Message_String
         (run sample_Id init_state
            [OpNewMessage ''hello'' ''ctx'', OpAddTranslation [] ''ctx'' ''hello'' ''bye'',
             OpSetLocale ''fr''])
         (fst (NewMessage sample_Id ''hello'' ''ctx'' init_state)) = ''bye''
   \<and> ''bye'' \<noteq> ''hello''"
  by (simp add: run_def Message_String_def defaultLocale_def SetLocale_def fst_NewMessage
      translations_NewMessage entry_AddTranslation entry_init_state)

text \<open>
  C9, amended. The Message returned by \<open>NewMessage(content, context)\<close> is registered
  under the default locale with its content as the translation. After any further calls
  that do not write the default locale's entry for the message's id (any \<open>SetLocale\<close> and
  \<open>String\<close> calls, and registrations under other keys), whenever the current locale has no
  translation registered for that id, \<open>String\<close> returns the content unchanged; and
  immediately after the construction it returns the content when the current locale is
  the default locale or has no translation for the id.
\<close>

theorem C9_NewMessage_round_trip:
  "entry (translations_tbl (snd (NewMessage msg_Id content context s))) defaultLocale
      (Message_id (fst (NewMessage msg_Id content context s))) = Some content
   \<and> (list_all (\<lambda>x. written_key msg_Id x \<noteq>
                      Some (defaultLocale, Message_id (fst (NewMessage msg_Id content context s)))) ops
       \<and> entry (translations_tbl (run msg_Id (snd (NewMessage msg_Id content context s)) ops))
            (currentLocale (run msg_Id (snd (NewMessage msg_Id content context s)) ops))
            (Message_id (fst (NewMessage msg_Id content context s))) = None
      \<longrightarrow> Message_String (run msg_Id (snd (NewMessage msg_Id content context s)) ops)
            (fst (NewMessage msg_Id content context s)) = content)
   \<and> (currentLocale s = defaultLocale
       \<or> entry (translations_tbl (snd (NewMessage msg_Id content context s))) (currentLocale s)
            (Message_id (fst (NewMessage msg_Id content context s))) = None
      \<longrightarrow> Message_String (snd (NewMessage msg_Id content context s))
            (fst (NewMessage msg_Id content context s)) = content)"
proof (intro conjI impI)
  let ?m = "fst (NewMessage msg_Id content context s)"
  let ?s1 = "snd (NewMessage msg_Id content context s)"
  show reg: "entry (translations_tbl ?s1) defaultLocale (Message_id ?m) = Some content"
    by (simp add: fst_NewMessage translations_NewMessage entry_AddTranslation)
  {
    assume h: "list_all (\<lambda>x. written_key msg_Id x \<noteq> Some (defaultLocale, Message_id ?m)) ops
       \<and> entry (translations_tbl (run msg_Id ?s1 ops)) (currentLocale (run msg_Id ?s1 ops))
            (Message_id ?m) = None"
    from h have "entry (translations_tbl (run msg_Id ?s1 ops)) defaultLocale (Message_id ?m) =
        entry (translations_tbl ?s1) defaultLocale (Message_id ?m)"
      by (simp add: entry_run_other)
    with reg h show "Message_String (run msg_Id ?s1 ops) ?m = content"
      by (simp add: Message_String_def)
  }
  {
    assume h: "currentLocale s = defaultLocale
       \<or> entry (translations_tbl ?s1) (currentLocale s) (Message_id ?m) = None"
    have cur: "currentLocale ?s1 = currentLocale s"
      by (rule currentLocale_NewMessage)
    from h reg show "Message_String ?s1 ?m = content"
      by (auto simp: Message_String_def cur)
  }
qed

theorem C9_NewMessage_round_trip_witness:
  "Message_String
     (run sample_Id (snd (NewMessage sample_Id ''hello'' ''ctx'' init_state))
        [OpAddTranslation ''de'' ''ctx'' ''hello'' ''hallo'', OpSetLocale ''fr''])
     (fst (NewMessage sample_Id ''hello'' ''ctx'' init_state)) = ''hello''
   \<and> Message_String (snd (NewMessage sample_Id ''hello'' ''ctx'' init_state))
       (fst (NewMessage sample_Id ''hello'' ''ctx'' init_state)) = ''hello''"
proof -
  let ?m = "fst (NewMessage sample_Id ''hello'' ''ctx'' init_state)"
  let ?s1 = "snd (NewMessage sample_Id ''hello'' ''ctx'' init_state)"
  let ?ops = "[OpAddTranslation ''de'' ''ctx'' ''hello'' ''hallo'', OpSetLocale ''fr'']"
  have keys: "list_all (\<lambda>x. written_key sample_Id x \<noteq> Some (defaultLocale, Message_id ?m)) ?ops"
    by (simp add: defaultLocale_def)
  have miss: "entry (translations_tbl (run sample_Id ?s1 ?ops)) (currentLocale (run sample_Id ?s1 ?ops))
            (Message_id ?m) = None"
    by (simp add: run_def SetLocale_def fst_NewMessage translations_NewMessage
        entry_AddTranslation entry_init_state defaultLocale_def)
  have dflt: "currentLocale init_state = defaultLocale"
    by (simp add: init_state_def)
  show ?thesis
    using C9_NewMessage_round_trip [of sample_Id "''hello''" "''ctx''" init_state ?ops]
      keys miss dflt
    by simp
qed

text \<open>
  C10. Frame conditions of the two mutating functions. \<open>SetLocale(locale)\<close> sets the
  current locale and leaves the whole table of translations and every allocated Message
  (so every Message's id) as they were. \<open>AddTranslation(locale, context, content,
  translation)\<close> leaves the current locale and the allocated Messages as they were, leaves
  the maps of all other locales untouched, and leaves the entry under every (locale, id)
  pair other than (locale, the id it returns) as it was.
\<close>

theorem C10_frame_conditions:
  "currentLocale (SetLocale locale s) = locale
   \<and> translations_tbl (SetLocale locale s) = translations_tbl s
   \<and> allocated (SetLocale locale s) = allocated s
   \<and> currentLocale (snd (AddTranslation msg_Id locale context content translation s)) =
       currentLocale s
   \<and> allocated (snd (AddTranslation msg_Id locale context content translation s)) = allocated s
   \<and> (l \<noteq> locale \<longrightarrow>
        translations_tbl (snd (AddTranslation msg_Id locale context content translation s)) l =
        translations_tbl s l)
   \<and> ((l, i) \<noteq> (locale, fst (AddTranslation msg_Id locale context content translation s)) \<longrightarrow>
        entry (translations_tbl (snd (AddTranslation msg_Id locale context content translation s))) l i =
        entry (translations_tbl s) l i)"
proof (intro conjI impI)
  show "currentLocale (SetLocale locale s) = locale"
    and "translations_tbl (SetLocale locale s) = translations_tbl s"
    and "allocated (SetLocale locale s) = allocated s"
    by (simp_all add: SetLocale_def)
next
  show "currentLocale (snd (AddTranslation msg_Id locale context content translation s)) =
       currentLocale s"
    by (rule currentLocale_AddTranslation)
next
  show "allocated (snd (AddTranslation msg_Id locale context content translation s)) = allocated s"
    by (rule allocated_AddTranslation)
next
  assume "l \<noteq> locale"
  then show "translations_tbl (snd (AddTranslation msg_Id locale context content translation s)) l =
        translations_tbl s l"
    by (simp add: AddTranslation_def Let_def)
next
  assume "(l, i) \<noteq> (locale, fst (AddTranslation msg_Id locale context content translation s))"
  then show "entry (translations_tbl (snd (AddTranslation msg_Id locale context content translation s))) l i =
        entry (translations_tbl s) l i"
    by (auto simp: entry_AddTranslation fst_AddTranslation)
qed

theorem C10_frame_conditions_witness:
  "translations_tbl (snd (AddTranslation sample_Id ''fr'' ''ctx'' ''hello'' ''bonjour''
       (snd (AddTranslation sample_Id ''de'' ''ctx'' ''hello'' ''hallo'' init_state)))) ''de'' =
     translations_tbl (snd (AddTranslation sample_Id ''de'' ''ctx'' ''hello'' ''hallo'' init_state)) ''de''
   \<and> entry (translations_tbl (snd (AddTranslation sample_Id ''fr'' ''ctx'' ''hello'' ''bonjour''
       (snd (AddTranslation sample_Id ''fr'' ''ctx'' ''bye'' ''salut'' init_state)))))
       ''fr'' (sample_Id ''ctx'' ''bye'') = Some ''salut''"
proof -
  have ne: "(''fr'', sample_Id ''ctx'' ''bye'') \<noteq>
      (''fr'', fst (AddTranslation sample_Id ''fr'' ''ctx'' ''hello'' ''bonjour''
         (snd (AddTranslation sample_Id ''fr'' ''ctx'' ''bye'' ''salut'' init_state))))"
    by (simp add: fst_AddTranslation sample_Id_def)
  have old: "entry (translations_tbl (snd (AddTranslation sample_Id ''fr'' ''ctx'' ''bye'' ''salut''
      init_state))) ''fr'' (sample_Id ''ctx'' ''bye'') = Some ''salut''"
    by (simp add: entry_AddTranslation)
  have a: "entry (translations_tbl (snd (AddTranslation sample_Id ''fr'' ''ctx'' ''hello'' ''bonjour''
       (snd (AddTranslation sample_Id ''fr'' ''ctx'' ''bye'' ''salut'' init_state)))))
       ''fr'' (sample_Id ''ctx'' ''bye'') = Some ''salut''"
    using C10_frame_conditions [of "''fr''"
        "snd (AddTranslation sample_Id ''fr'' ''ctx'' ''bye'' ''salut'' init_state)"
        sample_Id "''ctx''" "''hello''" "''bonjour''" "''fr''" "sample_Id ''ctx'' ''bye''"]
      ne old
    by simp
  have b: "translations_tbl (snd (AddTranslation sample_Id ''fr'' ''ctx'' ''hello'' ''bonjour''
       (snd (AddTranslation sample_Id ''de'' ''ctx'' ''hello'' ''hallo'' init_state)))) ''de'' =
     translations_tbl (snd (AddTranslation sample_Id ''de'' ''ctx'' ''hello'' ''hallo'' init_state)) ''de''"
    using C10_frame_conditions [of "''fr''"
        "snd (AddTranslation sample_Id ''de'' ''ctx'' ''hello'' ''hallo'' init_state)"
        sample_Id "''ctx''" "''hello''" "''bonjour''" "''de''" "sample_Id ''ctx'' ''bye''"]
    by simp
  show ?thesis using a b by simp
qed

end
